theory Spec2Isabelle
  imports Main "HOL-Library.Sublist"
begin

section \<open>The agent turn orchestrator (\<open>consultAgent\<close>)\<close>

text \<open>
  A shallow embedding of \<open>consultAgent\<close>. The function talks to two external
  services: the chat session of the model service (\<open>chat.sendMessage\<close>) and the tool
  executor behind \<open>fetch("/api/tools/execute")\<close>. Both are parameters of the model:
  each takes the state of the outside world and returns either a thrown error or a value,
  with the next state of the world. Every awaited call is assumed to settle (to resolve or
  to reject); a promise that never settles is outside the model.

  Everything \<open>consultAgent\<close> does to the outside is recorded as a list of events, in
  the order of the program.
\<close>

subsection \<open>Data\<close>

text \<open>
  Fields keep their names in the source, with a prefix where two objects have a field of
  the same name (\<open>call_\<close>, \<open>resp_\<close>, \<open>response_\<close>, \<open>agent_\<close>). Every
  optional field is an \<open>option\<close>.
\<close>

text \<open>Opaque JSON values: tool arguments and tool results are passed through unread.\<close>

datatype json =
    JNull
  | JBool bool
  | JNum int
  | JStr string
  | JArr "json list"
  | JObj "(string \<times> json) list"

text \<open>
  A thrown value. It is taken to be an object, and the code reads it only through
  \<open>error.message\<close>, which may be undefined.
\<close>

datatype jserror = JsError (message: "string option")

record FunctionCall =
  call_id :: "string option"
  call_name :: "string option"
  call_args :: "json option"

text \<open>\<open>{ content: result }\<close> or \<open>{ error: error.message }\<close>.\<close>

datatype payload = Content json | Error "string option"

text \<open>One entry of \<open>functionResponses\<close>: \<open>{ name, response, id }\<close>.\<close>

record FunctionResponse =
  resp_name :: "string option"
  resp_response :: payload
  resp_id :: "string option"

record WebSource =
  uri :: "string option"
  title :: "string option"

record GroundingChunk =
  web :: "WebSource option"

record GroundingMetadata =
  groundingChunks :: "GroundingChunk list option"

record Candidate =
  groundingMetadata :: "GroundingMetadata option"

text \<open>The part of the model's response that \<open>consultAgent\<close> reads.\<close>

record GenerateContentResponse =
  response_text :: "string option"
  functionCalls :: "FunctionCall list option"
  candidates :: "Candidate list option"

record AgentResponse =
  agent_text :: string
  sources :: "WebSource list"

text \<open>
  The argument of \<open>chat.sendMessage\<close>: the user's query, or
  \<open>JSON.stringify(functionResponses)\<close>, kept as the list it serialises.
\<close>

datatype chat_message = UserQuery string | ToolResults "FunctionResponse list"

datatype event =
    ChatCreate
  | SendMessage chat_message
  | Fetch "string option" "json option"
  | ConsoleError nat jserror
  | Sleep nat

record 'w services =
  sendMessage :: "chat_message \<Rightarrow> 'w \<Rightarrow> (jserror + GenerateContentResponse) \<times> 'w"
  execute :: "FunctionCall \<Rightarrow> 'w \<Rightarrow> (jserror + json) \<times> 'w"

record process_env =
  API_KEY :: "string option"
  GEMINI_API_KEY :: "string option"

text \<open>
  The \<open>return\<close> statements of \<open>consultAgent\<close>, in source order, and its
  \<open>throw\<close>.
\<close>

datatype return_site =
    MissingKey
  | Success
  | QuotaExhausted
  | InvalidKey
  | InternalError
  | Fallback

datatype outcome = Returned return_site AgentResponse | Thrown jserror

subsection \<open>JavaScript helpers\<close>

text \<open>A string (or undefined) as a condition: undefined and the empty string are falsy.\<close>

fun truthy :: "string option \<Rightarrow> bool" where
  "truthy None = False"
| "truthy (Some s) = (s \<noteq> [])"

text \<open>\<open>s.includes(pat)\<close>: \<open>pat\<close> occurs in \<open>s\<close> as a contiguous run.\<close>

fun str_includes :: "string \<Rightarrow> string \<Rightarrow> bool" where
  "str_includes [] pat = (pat = [])"
| "str_includes (c # cs) pat = (prefix pat (c # cs) \<or> str_includes cs pat)"

text \<open>\<open>error.message?.includes(pat)\<close>: falsy when the message is undefined.\<close>

definition message_includes :: "jserror \<Rightarrow> string \<Rightarrow> bool" where
  "message_includes e pat = (case message e of None \<Rightarrow> False | Some m \<Rightarrow> str_includes m pat)"

subsection \<open>The fixed responses\<close>

definition missing_key_text :: string where
  "missing_key_text =
     ''## API Key Missing\<newline>\<newline>No Gemini API key was found in the environment. \<newline>\<newline>**To resolve this:**\<newline>1. Click the **Set API Key** button in the top-right header.\<newline>2. Select a paid Google Cloud project with billing enabled.\<newline>3. Once set, you can start interacting with Nexus.''"

definition quota_text :: string where
  "quota_text =
     ''## Quota Exhausted\<newline>\<newline>You've reached the rate limit for the current API key. \<newline>\<newline>**To continue:**\<newline>1. Click the **Set API Key** button in the header.\<newline>2. Select a paid Google Cloud project with billing enabled.\<newline>3. Try your request again.''"

definition invalid_key_text :: string where
  "invalid_key_text =
     ''## Invalid API Key\<newline>\<newline>The provided Gemini API key is invalid or has expired.\<newline>\<newline>**To fix this:**\<newline>1. Click the **Set API Key** button in the header.\<newline>2. Select a valid API key from a paid Google Cloud project.\<newline>3. Try your request again.''"

definition internal_error_text :: string where
  "internal_error_text =
     ''## Gemini Internal Error\<newline>\<newline>The Gemini API encountered an internal error. This is usually temporary.\<newline>\<newline>**Suggestions:**\<newline>1. Wait a few seconds and try again.\<newline>2. If the problem persists, try switching to a different API key using the **Set API Key** button.\<newline>3. Simplify your request.''"

definition fallback_text :: string where
  "fallback_text = ''Failed to get a response after multiple attempts.''"

definition missing_key_response :: AgentResponse where
  "missing_key_response = \<lparr>agent_text = missing_key_text, sources = []\<rparr>"

definition quota_response :: AgentResponse where
  "quota_response = \<lparr>agent_text = quota_text, sources = []\<rparr>"

definition invalid_key_response :: AgentResponse where
  "invalid_key_response = \<lparr>agent_text = invalid_key_text, sources = []\<rparr>"

definition internal_error_response :: AgentResponse where
  "internal_error_response = \<lparr>agent_text = internal_error_text, sources = []\<rparr>"

definition fallback_response :: AgentResponse where
  "fallback_response = \<lparr>agent_text = fallback_text, sources = []\<rparr>"

subsection \<open>One tool call: the body of the \<open>for\<close> loop\<close>

text \<open>
  \<open>fetch\<close> and \<open>res.json()\<close> are the service \<open>execute\<close>. Whatever it throws is
  caught, and either way one entry is pushed onto \<open>functionResponses\<close>.
\<close>

definition invoke ::
  "'w services \<Rightarrow> FunctionCall \<Rightarrow> 'w \<Rightarrow> FunctionResponse \<times> event list \<times> 'w" where
  "invoke sv call w =
     (case execute sv call w of
        (Inr result, w') \<Rightarrow>
          (\<lparr>resp_name = call_name call, resp_response = Content result,
            resp_id = call_id call\<rparr>,
           [Fetch (call_name call) (call_args call)], w')
      | (Inl error, w') \<Rightarrow>
          (\<lparr>resp_name = call_name call, resp_response = Error (message error),
            resp_id = call_id call\<rparr>,
           [Fetch (call_name call) (call_args call)], w'))"

text \<open>\<open>for (const call of response.functionCalls)\<close>, pushing onto \<open>functionResponses\<close>.\<close>

fun for_calls ::
  "'w services \<Rightarrow> FunctionCall list \<Rightarrow> FunctionResponse list \<Rightarrow> 'w
     \<Rightarrow> FunctionResponse list \<times> event list \<times> 'w" where
  "for_calls sv [] functionResponses w = (functionResponses, [], w)"
| "for_calls sv (call # calls) functionResponses w =
     (case invoke sv call w of
        (r, ev, w') \<Rightarrow>
          (case for_calls sv calls (functionResponses @ [r]) w' of
             (rs, ev', w'') \<Rightarrow> (rs, ev @ ev', w'')))"

subsection \<open>The function-call loop\<close>

text \<open>
  \<open>while (response.functionCalls && iterations < 5)\<close>. An array is truthy even when it
  is empty, so only an undefined \<open>functionCalls\<close> ends the loop before the cap. The result
  carries the value of \<open>iterations\<close> at the exit, and \<open>Inl\<close> is an error thrown by
  \<open>chat.sendMessage\<close> inside the loop.
\<close>

function function_call_loop ::
  "'w services \<Rightarrow> GenerateContentResponse \<Rightarrow> nat \<Rightarrow> 'w
     \<Rightarrow> (jserror + GenerateContentResponse) \<times> nat \<times> event list \<times> 'w" where
  "function_call_loop sv response iterations w =
     (case functionCalls response of
        None \<Rightarrow> (Inr response, iterations, [], w)
      | Some calls \<Rightarrow>
          if iterations < 5 then
            (case for_calls sv calls [] w of
               (functionResponses, ev, w1) \<Rightarrow>
                 (case sendMessage sv (ToolResults functionResponses) w1 of
                    (Inl error, w2) \<Rightarrow>
                      (Inl error, iterations + 1,
                       ev @ [SendMessage (ToolResults functionResponses)], w2)
                  | (Inr response', w2) \<Rightarrow>
                      (case function_call_loop sv response' (iterations + 1) w2 of
                         (res, n, ev', w3) \<Rightarrow>
                           (res, n,
                            ev @ [SendMessage (ToolResults functionResponses)] @ ev', w3))))
          else (Inr response, iterations, [], w))"
  by pat_completeness auto
termination
  by (relation "measure (\<lambda>(sv, response, iterations, w). 5 - iterations)") auto

declare function_call_loop.simps [simp del]

subsection \<open>One turn attempt: the body of the \<open>try\<close>\<close>

definition grounding_chunks :: "GenerateContentResponse \<Rightarrow> GroundingChunk list option" where
  "grounding_chunks response =
     (case candidates response of
        None \<Rightarrow> None
      | Some [] \<Rightarrow> None
      | Some (c # _) \<Rightarrow>
          (case groundingMetadata c of
             None \<Rightarrow> None
           | Some g \<Rightarrow> groundingChunks g))"

definition extract_sources :: "GenerateContentResponse \<Rightarrow> WebSource list" where
  "extract_sources response =
     (case grounding_chunks response of
        Some chunks \<Rightarrow>
          map (\<lambda>chunk. \<lparr>uri = uri (the (web chunk)), title = title (the (web chunk))\<rparr>)
            (filter (\<lambda>chunk. web chunk \<noteq> None) chunks)
      | None \<Rightarrow> [])"

definition extract_text :: "GenerateContentResponse \<Rightarrow> string" where
  "extract_text response =
     (if truthy (response_text response) then the (response_text response)
      else ''Task completed.'')"

definition attempt ::
  "'w services \<Rightarrow> string \<Rightarrow> 'w \<Rightarrow> (jserror + AgentResponse) \<times> event list \<times> 'w" where
  "attempt sv userQuery w =
     (case sendMessage sv (UserQuery userQuery) w of
        (Inl error, w1) \<Rightarrow> (Inl error, [SendMessage (UserQuery userQuery)], w1)
      | (Inr response, w1) \<Rightarrow>
          (case function_call_loop sv response 0 w1 of
             (Inl error, n, ev, w2) \<Rightarrow>
               (Inl error, SendMessage (UserQuery userQuery) # ev, w2)
           | (Inr response', n, ev, w2) \<Rightarrow>
               (Inr \<lparr>agent_text = extract_text response', sources = extract_sources response'\<rparr>,
                SendMessage (UserQuery userQuery) # ev, w2)))"

subsection \<open>The retry loop and \<open>consultAgent\<close>\<close>

definition maxRetries :: nat where
  "maxRetries = 3"

definition isTransient :: "jserror \<Rightarrow> bool" where
  "isTransient error \<longleftrightarrow>
     message_includes error ''500'' \<or> message_includes error ''INTERNAL'' \<or>
     message_includes error ''Service Unavailable'' \<or>
     message_includes error ''Deadline Exceeded''"

text \<open>
  The \<open>catch\<close> block once the retry is not taken: the first matching remediation is
  returned, and an error that matches none is thrown again.
\<close>

definition remediate :: "jserror \<Rightarrow> outcome" where
  "remediate error =
     (if message_includes error ''429'' \<or> message_includes error ''RESOURCE_EXHAUSTED''
      then Returned QuotaExhausted quota_response
      else if message_includes error ''API_KEY_INVALID'' \<or>
              message_includes error ''invalid API key''
      then Returned InvalidKey invalid_key_response
      else if message_includes error ''500'' \<or> message_includes error ''INTERNAL''
      then Returned InternalError internal_error_response
      else Thrown error)"

text \<open>
  \<open>while (retryCount < maxRetries)\<close>. The result carries the value of \<open>retryCount\<close>
  at the exit. The delay is in milliseconds.
\<close>

function retry_loop ::
  "'w services \<Rightarrow> string \<Rightarrow> nat \<Rightarrow> 'w \<Rightarrow> outcome \<times> nat \<times> event list \<times> 'w" where
  "retry_loop sv userQuery retryCount w =
     (if retryCount < maxRetries then
        (case attempt sv userQuery w of
           (Inr r, ev, w1) \<Rightarrow> (Returned Success r, retryCount, ev, w1)
         | (Inl error, ev, w1) \<Rightarrow>
             if isTransient error \<and> retryCount < maxRetries - 1 then
               (case retry_loop sv userQuery (retryCount + 1) w1 of
                  (out, n, ev', w2) \<Rightarrow>
                    (out, n,
                     ev @ [ConsoleError (retryCount + 1) error,
                           Sleep (2 ^ (retryCount + 1) * 1000)] @ ev',
                     w2))
             else (remediate error, retryCount,
                   ev @ [ConsoleError (retryCount + 1) error], w1))
      else (Returned Fallback fallback_response, retryCount, [], w))"
  by pat_completeness auto
termination
  by (relation "measure (\<lambda>(sv, userQuery, retryCount, w). maxRetries - retryCount)") auto

declare retry_loop.simps [simp del]

definition consultAgent ::
  "process_env \<Rightarrow> 'w services \<Rightarrow> string \<Rightarrow> 'w \<Rightarrow> outcome \<times> event list \<times> 'w" where
  "consultAgent env sv userQuery w =
     (let apiKey = (if truthy (API_KEY env) then API_KEY env else GEMINI_API_KEY env) in
      if \<not> truthy apiKey then (Returned MissingKey missing_key_response, [], w)
      else
        (case retry_loop sv userQuery 0 w of
           (out, n, ev, w') \<Rightarrow> (out, ChatCreate # ev, w')))"

subsection \<open>Reading the event list\<close>

text \<open>A \<open>sendMessage\<close> made inside the function-call loop.\<close>

fun is_tool_results_send :: "event \<Rightarrow> bool" where
  "is_tool_results_send (SendMessage (ToolResults _)) = True"
| "is_tool_results_send _ = False"

text \<open>The \<open>sendMessage\<close> that opens a turn attempt.\<close>

fun is_attempt_start :: "event \<Rightarrow> bool" where
  "is_attempt_start (SendMessage (UserQuery _)) = True"
| "is_attempt_start _ = False"

subsection \<open>Example services\<close>

text \<open>
  A model service that replays a script of replies, one per \<open>sendMessage\<close>, and a
  tool executor on which \<open>send_gmail\<close> fails while every other tool answers. The state
  of the world is the rest of the script.
\<close>

definition failing_tool_error :: jserror where
  "failing_tool_error = JsError (Some ''Failed to fetch'')"

definition scripted :: "(jserror + GenerateContentResponse) list services" where
  "scripted =
     \<lparr>sendMessage = (\<lambda>m w.
        case w of
          [] \<Rightarrow> (Inl (JsError (Some ''script exhausted'')), [])
        | reply # rest \<Rightarrow> (reply, rest)),
      execute = (\<lambda>call w.
        if call_name call = Some ''send_gmail'' then (Inl failing_tool_error, w)
        else (Inr (JArr []), w))\<rparr>"

definition three_calls :: "FunctionCall list" where
  "three_calls =
     [\<lparr>call_id = Some ''1'', call_name = Some ''list_github_repos'', call_args = Some (JObj [])\<rparr>,
      \<lparr>call_id = Some ''2'', call_name = Some ''send_gmail'', call_args = None\<rparr>,
      \<lparr>call_id = Some ''3'', call_name = Some ''list_github_repos'', call_args = Some (JObj [])\<rparr>]"

text \<open>
  A model that asks for the same three tool calls in every response, for ever. The state
  of the world counts its replies.
\<close>

definition insistent :: "nat services" where
  "insistent =
     \<lparr>sendMessage = (\<lambda>m w.
        (Inr \<lparr>response_text = None, functionCalls = Some three_calls, candidates = None\<rparr>,
         w + 1)),
      execute = (\<lambda>call w. (Inr JNull, w))\<rparr>"

text \<open>Environments with and without a credential.\<close>

definition env_with_key :: process_env where
  "env_with_key = \<lparr>API_KEY = None, GEMINI_API_KEY = Some ''AIza-example''\<rparr>"

definition env_without_key :: process_env where
  "env_without_key = \<lparr>API_KEY = Some [], GEMINI_API_KEY = None\<rparr>"

text \<open>Responses of the model without function calls.\<close>

definition plain_answer :: GenerateContentResponse where
  "plain_answer =
     \<lparr>response_text = Some ''Here are your repos: r1.'', functionCalls = None,
      candidates = None\<rparr>"

definition empty_answer :: GenerateContentResponse where
  "empty_answer = \<lparr>response_text = Some [], functionCalls = None, candidates = None\<rparr>"

definition grounded_answer :: GenerateContentResponse where
  "grounded_answer =
     \<lparr>response_text = Some ''Two results.'', functionCalls = None,
      candidates = Some
        [\<lparr>groundingMetadata = Some
           \<lparr>groundingChunks = Some
              [\<lparr>web = Some \<lparr>uri = Some ''https://a.example'', title = Some ''A''\<rparr>\<rparr>,
               \<lparr>web = None\<rparr>,
               \<lparr>web = Some \<lparr>uri = Some ''https://b.example'', title = None\<rparr>\<rparr>]\<rparr>\<rparr>]\<rparr>"

text \<open>A response of the model that asks for one tool call.\<close>

definition list_repos_request :: GenerateContentResponse where
  "list_repos_request =
     \<lparr>response_text = None,
      functionCalls = Some
        [\<lparr>call_id = Some ''1'', call_name = Some ''list_github_repos'',
          call_args = Some (JObj [])\<rparr>],
      candidates = None\<rparr>"

text \<open>Errors thrown by \<open>chat.sendMessage\<close>.\<close>

definition internal_error :: jserror where
  "internal_error = JsError (Some ''got status: 500 INTERNAL'')"

definition quota_error :: jserror where
  "quota_error = JsError (Some ''got status: 429 RESOURCE_EXHAUSTED'')"

definition deadline_error :: jserror where
  "deadline_error = JsError (Some ''Deadline Exceeded'')"

definition unavailable_error :: jserror where
  "unavailable_error = JsError (Some ''got status: 503 Service Unavailable'')"

definition mixed_error :: jserror where
  "mixed_error = JsError (Some ''got status: 429 Too Many Requests. Please retry in 500ms.'')"

definition network_error :: jserror where
  "network_error = JsError (Some ''fetch failed'')"

definition invalid_key_error :: jserror where
  "invalid_key_error = JsError (Some ''got status: 500 INTERNAL. API_KEY_INVALID'')"

section \<open>Properties\<close>

subsection \<open>Substrings\<close>

lemma str_includes_sublist: "str_includes m pat \<longleftrightarrow> sublist pat m"
  by (induction m) (auto simp: sublist_Cons_right)

subsection \<open>One result per tool call\<close>

lemma for_calls_acc:
  "for_calls sv calls acc w =
     (case for_calls sv calls [] w of (rs, ev, w') \<Rightarrow> (acc @ rs, ev, w'))"
proof (induction calls arbitrary: acc w)
  case Nil
  show ?case by simp
next
  case (Cons c cs)
  show ?case
    apply (simp split: prod.splits)
    apply (subst Cons.IH)
    apply (subst (2) Cons.IH)
    apply (simp split: prod.splits)
    done
qed

lemma for_calls_Cons:
  "for_calls sv (c # cs) [] w =
     (case invoke sv c w of
        (r, ev, w1) \<Rightarrow>
          (case for_calls sv cs [] w1 of (rs, ev', w2) \<Rightarrow> (r # rs, ev @ ev', w2)))"
  by (simp add: for_calls_acc [of sv cs "[r]" for r] split: prod.splits)

lemma for_calls_append:
  "for_calls sv (cs1 @ cs2) [] w =
     (case for_calls sv cs1 [] w of
        (rs1, ev1, w1) \<Rightarrow>
          (case for_calls sv cs2 [] w1 of (rs2, ev2, w2) \<Rightarrow> (rs1 @ rs2, ev1 @ ev2, w2)))"
proof (induction cs1 arbitrary: w)
  case Nil
  show ?case by (simp split: prod.splits)
next
  case (Cons c cs1)
  show ?case
    unfolding append_Cons for_calls_Cons Cons.IH
    by (simp split: prod.splits)
qed

lemma invoke_fields:
  "invoke sv c w = (r, ev, w') \<Longrightarrow>
     resp_id r = call_id c \<and> resp_name r = call_name c \<and>
     resp_response r =
       (case fst (execute sv c w) of Inl e \<Rightarrow> Error (message e) | Inr j \<Rightarrow> Content j) \<and>
     ev = [Fetch (call_name c) (call_args c)] \<and> w' = snd (execute sv c w)"
  by (auto simp: invoke_def split: prod.splits sum.splits)

lemma for_calls_pairs:
  "for_calls sv calls [] w = (rs, ev, w') \<Longrightarrow>
     list_all2 (\<lambda>c r. resp_id r = call_id c \<and> resp_name r = call_name c) calls rs"
proof (induction calls arbitrary: w rs ev w')
  case Nil
  then show ?case by simp
next
  case (Cons c cs)
  then show ?case
    unfolding for_calls_Cons
    by (auto split: prod.splits dest: invoke_fields)
qed

lemma for_calls_events:
  "for_calls sv calls [] w = (rs, ev, w') \<Longrightarrow>
     ev = map (\<lambda>c. Fetch (call_name c) (call_args c)) calls"
proof (induction calls arbitrary: w rs ev w')
  case Nil
  then show ?case by simp
next
  case (Cons c cs)
  then show ?case
    unfolding for_calls_Cons
    by (auto split: prod.splits dest: invoke_fields)
qed

lemma for_calls_ids:
  "for_calls sv calls [] w = (rs, ev, w') \<Longrightarrow>
     map resp_id rs = map call_id calls \<and> map resp_name rs = map call_name calls"
  by (drule for_calls_pairs) (induction calls rs rule: list_all2_induct, auto)

lemma one_match_of_distinct:
  "distinct (map f xs) \<Longrightarrow> map g ys = map f xs \<Longrightarrow> x \<in> set xs \<Longrightarrow>
     length (filter (\<lambda>y. g y = f x) ys) = 1"
proof -
  assume d: "distinct (map f xs)" and m: "map g ys = map f xs" and x: "x \<in> set xs"
  have "length (filter (\<lambda>y. g y = f x) ys) = length (filter (\<lambda>v. v = f x) (map g ys))"
    by (simp add: filter_map comp_def)
  also have "\<dots> = card ({v. v = f x} \<inter> set (map f xs))"
    unfolding m using d by (rule distinct_length_filter)
  also have "{v. v = f x} \<inter> set (map f xs) = {f x}"
    using x by auto
  finally show ?thesis by simp
qed

lemma for_calls_split:
  assumes "for_calls sv (cs1 @ c # cs2) [] w = (rs, ev, w')"
  shows "\<exists>rs1 ev1 w1 rs2 ev2.
           for_calls sv cs1 [] w = (rs1, ev1, w1) \<and>
           for_calls sv cs2 [] (snd (execute sv c w1)) = (rs2, ev2, w') \<and>
           rs = rs1 @
             \<lparr>resp_name = call_name c,
              resp_response =
                (case fst (execute sv c w1) of
                   Inl e \<Rightarrow> Error (message e) | Inr j \<Rightarrow> Content j),
              resp_id = call_id c\<rparr> # rs2"
  using assms
  unfolding for_calls_append for_calls_Cons
  by (auto simp: invoke_def split: prod.splits sum.splits)

lemma loop_sends_all_results:
  assumes "for_calls sv calls [] w = (rs, ev, w')"
    and "functionCalls response = Some calls" and "iterations < 5"
  shows "\<exists>ev'. fst (snd (snd (function_call_loop sv response iterations w))) =
           ev @ SendMessage (ToolResults rs) # ev'"
  using assms
  by (subst function_call_loop.simps) (auto split: prod.splits sum.splits)

text \<open>
  C1. In one iteration of the function-call loop every call of the response gets exactly
  one entry of \<open>functionResponses\<close>, at the position of the call and with the call's
  id and name; when the ids of the calls are distinct, exactly one entry carries each call's
  id. A call whose invocation throws gets the error message as its payload, the calls
  before and after it keep their entries, and the whole list is then sent to the model.
\<close>

theorem tool_results_pair_with_calls:
  assumes "for_calls sv calls [] w = (rs, ev, w')"
  shows "length rs = length calls \<and>
    (\<forall>i<length calls.
       resp_id (rs ! i) = call_id (calls ! i) \<and> resp_name (rs ! i) = call_name (calls ! i)) \<and>
    (distinct (map call_id calls) \<longrightarrow>
       (\<forall>c\<in>set calls. length (filter (\<lambda>r. resp_id r = call_id c) rs) = 1)) \<and>
    (\<forall>cs1 c cs2. calls = cs1 @ c # cs2 \<longrightarrow>
       (\<exists>rs1 ev1 w1 rs2 ev2.
          for_calls sv cs1 [] w = (rs1, ev1, w1) \<and>
          for_calls sv cs2 [] (snd (execute sv c w1)) = (rs2, ev2, w') \<and>
          rs = rs1 @
            \<lparr>resp_name = call_name c,
             resp_response =
               (case fst (execute sv c w1) of
                  Inl e \<Rightarrow> Error (message e) | Inr j \<Rightarrow> Content j),
             resp_id = call_id c\<rparr> # rs2)) \<and>
    (\<forall>response iterations.
       functionCalls response = Some calls \<and> iterations < 5 \<longrightarrow>
       (\<exists>ev'. fst (snd (snd (function_call_loop sv response iterations w))) =
          ev @ SendMessage (ToolResults rs) # ev'))"
proof -
  have pairs: "list_all2 (\<lambda>c r. resp_id r = call_id c \<and> resp_name r = call_name c) calls rs"
    using assms by (rule for_calls_pairs)
  have len: "length rs = length calls"
    using pairs by (simp add: list_all2_lengthD)
  have nth: "\<forall>i<length calls.
       resp_id (rs ! i) = call_id (calls ! i) \<and> resp_name (rs ! i) = call_name (calls ! i)"
    using pairs by (simp add: list_all2_conv_all_nth)
  have ids: "map resp_id rs = map call_id calls"
    using assms by (simp add: for_calls_ids)
  have one: "distinct (map call_id calls) \<longrightarrow>
       (\<forall>c\<in>set calls. length (filter (\<lambda>r. resp_id r = call_id c) rs) = 1)"
    using ids by (simp add: one_match_of_distinct)
  have split: "\<forall>cs1 c cs2. calls = cs1 @ c # cs2 \<longrightarrow>
       (\<exists>rs1 ev1 w1 rs2 ev2.
          for_calls sv cs1 [] w = (rs1, ev1, w1) \<and>
          for_calls sv cs2 [] (snd (execute sv c w1)) = (rs2, ev2, w') \<and>
          rs = rs1 @
            \<lparr>resp_name = call_name c,
             resp_response =
               (case fst (execute sv c w1) of
                  Inl e \<Rightarrow> Error (message e) | Inr j \<Rightarrow> Content j),
             resp_id = call_id c\<rparr> # rs2)"
  proof (intro allI impI)
    fix cs1 c cs2
    assume "calls = cs1 @ c # cs2"
    with assms have "for_calls sv (cs1 @ c # cs2) [] w = (rs, ev, w')"
      by simp
    then show "\<exists>rs1 ev1 w1 rs2 ev2.
          for_calls sv cs1 [] w = (rs1, ev1, w1) \<and>
          for_calls sv cs2 [] (snd (execute sv c w1)) = (rs2, ev2, w') \<and>
          rs = rs1 @
            \<lparr>resp_name = call_name c,
             resp_response =
               (case fst (execute sv c w1) of
                  Inl e \<Rightarrow> Error (message e) | Inr j \<Rightarrow> Content j),
             resp_id = call_id c\<rparr> # rs2"
      by (rule for_calls_split)
  qed
  have sent: "\<forall>response iterations.
       functionCalls response = Some calls \<and> iterations < 5 \<longrightarrow>
       (\<exists>ev'. fst (snd (snd (function_call_loop sv response iterations w))) =
          ev @ SendMessage (ToolResults rs) # ev')"
    using loop_sends_all_results [OF assms] by blast
  from len nth one split sent show ?thesis by (intro conjI)
qed

theorem tool_results_pair_with_calls_witness:
  "for_calls scripted three_calls [] [] =
     ([\<lparr>resp_name = Some ''list_github_repos'', resp_response = Content (JArr []),
        resp_id = Some ''1''\<rparr>,
       \<lparr>resp_name = Some ''send_gmail'', resp_response = Error (Some ''Failed to fetch''),
        resp_id = Some ''2''\<rparr>,
       \<lparr>resp_name = Some ''list_github_repos'', resp_response = Content (JArr []),
        resp_id = Some ''3''\<rparr>],
      [Fetch (Some ''list_github_repos'') (Some (JObj [])),
       Fetch (Some ''send_gmail'') None,
       Fetch (Some ''list_github_repos'') (Some (JObj []))],
      []) \<and>
   distinct (map call_id three_calls) \<and>
   length (filter (\<lambda>r. resp_id r = Some ''2'')
        [\<lparr>resp_name = Some ''list_github_repos'', resp_response = Content (JArr []),
          resp_id = Some ''1''\<rparr>,
         \<lparr>resp_name = Some ''send_gmail'', resp_response = Error (Some ''Failed to fetch''),
          resp_id = Some ''2''\<rparr>,
         \<lparr>resp_name = Some ''list_github_repos'', resp_response = Content (JArr []),
          resp_id = Some ''3''\<rparr>]) = 1"
proof -
  have run: "for_calls scripted three_calls [] [] =
     ([\<lparr>resp_name = Some ''list_github_repos'', resp_response = Content (JArr []),
        resp_id = Some ''1''\<rparr>,
       \<lparr>resp_name = Some ''send_gmail'', resp_response = Error (Some ''Failed to fetch''),
        resp_id = Some ''2''\<rparr>,
       \<lparr>resp_name = Some ''list_github_repos'', resp_response = Content (JArr []),
        resp_id = Some ''3''\<rparr>],
      [Fetch (Some ''list_github_repos'') (Some (JObj [])),
       Fetch (Some ''send_gmail'') None,
       Fetch (Some ''list_github_repos'') (Some (JObj []))],
      [])"
    by (simp add: three_calls_def scripted_def invoke_def failing_tool_error_def)
  have d: "distinct (map call_id three_calls)"
    by (simp add: three_calls_def)
  have second: "\<lparr>call_id = Some ''2'', call_name = Some ''send_gmail'', call_args = None\<rparr>
      \<in> set three_calls"
    by (simp add: three_calls_def)
  from tool_results_pair_with_calls [OF run] d second run show ?thesis
    by fastforce
qed

subsection \<open>The function-call loop of a turn attempt is bounded\<close>

lemma for_calls_no_sends:
  "for_calls sv calls [] w = (rs, ev, w') \<Longrightarrow> filter is_tool_results_send ev = []"
  by (drule for_calls_events) (simp add: filter_empty_conv)

lemma function_call_loop_counter:
  "function_call_loop sv response iterations w = (res, n, ev, w') \<Longrightarrow> iterations \<le> 5 \<Longrightarrow>
     iterations \<le> n \<and> n \<le> 5 \<and> length (filter is_tool_results_send ev) = n - iterations"
proof (induction sv response iterations w arbitrary: res n ev w' rule: function_call_loop.induct)
  case (1 sv response iterations w)
  show ?case
  proof (cases "functionCalls response")
    case None
    with "1.prems" show ?thesis
      by (simp add: function_call_loop.simps)
  next
    case (Some calls)
    show ?thesis
    proof (cases "iterations < 5")
      case False
      with Some "1.prems" show ?thesis
        by (simp add: function_call_loop.simps)
    next
      case True
      obtain frs ev1 w1 where fc: "for_calls sv calls [] w = (frs, ev1, w1)"
        by (cases "for_calls sv calls [] w") auto
      obtain reply w2 where sm: "sendMessage sv (ToolResults frs) w1 = (reply, w2)"
        by (cases "sendMessage sv (ToolResults frs) w1") auto
      have nos: "filter is_tool_results_send ev1 = []"
        using fc by (rule for_calls_no_sends)
      show ?thesis
      proof (cases reply)
        case (Inl e)
        with Some True fc sm "1.prems" nos show ?thesis
          by (auto simp: function_call_loop.simps [of sv response iterations w])
      next
        case (Inr response')
        obtain res2 n2 ev2 w3 where
          rec: "function_call_loop sv response' (iterations + 1) w2 = (res2, n2, ev2, w3)"
          by (cases "function_call_loop sv response' (iterations + 1) w2") auto
        have ih: "iterations + 1 \<le> n2 \<and> n2 \<le> 5 \<and>
            length (filter is_tool_results_send ev2) = n2 - (iterations + 1)"
          using "1.IH" [OF Some True fc [symmetric] refl sm [symmetric] _ rec] Inr True
          by simp
        from Some True fc sm Inr rec "1.prems" nos ih show ?thesis
          by (auto simp: function_call_loop.simps [of sv response iterations w])
      qed
    qed
  qed
qed

lemma function_call_loop_insistent:
  "function_call_loop sv response iterations w = (res, n, ev, w') \<Longrightarrow>
     functionCalls response \<noteq> None \<Longrightarrow> iterations \<le> 5 \<Longrightarrow>
     \<forall>m w. \<exists>r w'. sendMessage sv m w = (Inr r, w') \<and> functionCalls r \<noteq> None \<Longrightarrow>
     n = 5 \<and> (\<exists>r. res = Inr r)"
proof (induction sv response iterations w arbitrary: res n ev w' rule: function_call_loop.induct)
  case (1 sv response iterations w)
  from "1.prems" obtain calls where Some: "functionCalls response = Some calls"
    by auto
  show ?case
  proof (cases "iterations < 5")
    case False
    with Some "1.prems"(1,3) show ?thesis
      by (auto simp: function_call_loop.simps [of sv response iterations w])
  next
    case True
    obtain frs ev1 w1 where fc: "for_calls sv calls [] w = (frs, ev1, w1)"
      by (cases "for_calls sv calls [] w") auto
    from "1.prems"(4) obtain response' w2 where
      sm: "sendMessage sv (ToolResults frs) w1 = (Inr response', w2)"
      and more: "functionCalls response' \<noteq> None"
      by blast
    obtain res2 n2 ev2 w3 where
      rec: "function_call_loop sv response' (iterations + 1) w2 = (res2, n2, ev2, w3)"
      by (cases "function_call_loop sv response' (iterations + 1) w2") auto
    have ih: "n2 = 5 \<and> (\<exists>r. res2 = Inr r)"
      using "1.IH" [OF Some True fc [symmetric] refl sm [symmetric] refl rec more _ "1.prems"(4)] True
      by simp
    from Some True fc sm rec "1.prems"(1) ih show ?thesis
      by (auto simp: function_call_loop.simps [of sv response iterations w])
  qed
qed

lemma function_call_loop_step:
  assumes "functionCalls response = Some calls" and "iterations < 5"
    and "for_calls sv calls [] w = (frs, ev, w1)"
    and "sendMessage sv (ToolResults frs) w1 = (Inr response', w2)"
    and "next_iterations = iterations + 1"
    and "function_call_loop sv response' next_iterations w2 = (out, n, ev', w3)"
  shows "function_call_loop sv response iterations w =
     (out, n, ev @ [SendMessage (ToolResults frs)] @ ev', w3)"
  using assms by (simp add: function_call_loop.simps [of sv response iterations w])

lemma function_call_loop_cap:
  "function_call_loop sv response 5 w = (Inr response, 5, [], w)"
  by (simp add: function_call_loop.simps [of sv response 5 w] split: option.splits)

lemma function_call_loop_exit:
  "function_call_loop sv response iterations w = (Inr r, n, ev, w') \<Longrightarrow> iterations \<le> 5 \<Longrightarrow>
     n = 5 \<or> functionCalls r = None"
proof (induction sv response iterations w arbitrary: r n ev w' rule: function_call_loop.induct)
  case (1 sv response iterations w)
  show ?case
  proof (cases "functionCalls response")
    case None
    with "1.prems" show ?thesis
      by (auto simp: function_call_loop.simps [of sv response iterations w])
  next
    case (Some calls)
    show ?thesis
    proof (cases "iterations < 5")
      case False
      with Some "1.prems" show ?thesis
        by (auto simp: function_call_loop.simps [of sv response iterations w])
    next
      case True
      obtain frs ev1 w1 where fc: "for_calls sv calls [] w = (frs, ev1, w1)"
        by (cases "for_calls sv calls [] w") auto
      obtain reply w2 where sm: "sendMessage sv (ToolResults frs) w1 = (reply, w2)"
        by (cases "sendMessage sv (ToolResults frs) w1") auto
      show ?thesis
      proof (cases reply)
        case (Inl e)
        with Some True fc sm "1.prems" show ?thesis
          by (auto simp: function_call_loop.simps [of sv response iterations w])
      next
        case (Inr response')
        obtain out2 n2 ev2 w3 where
          rec: "function_call_loop sv response' (iterations + 1) w2 = (out2, n2, ev2, w3)"
          by (cases "function_call_loop sv response' (iterations + 1) w2") auto
        from Some True fc sm Inr rec "1.prems"(1) have same: "out2 = Inr r" "n2 = n"
          by (auto simp: function_call_loop.simps [of sv response iterations w])
        show ?thesis
          using "1.IH" [OF Some True fc [symmetric] refl sm [symmetric] _ rec [unfolded same]]
            Inr True
          by simp
      qed
    qed
  qed
qed

lemma five_rounds:
  assumes "functionCalls r0 = Some c0" and "for_calls sv c0 [] w0 = (f0, e0, v0)"
    and "sendMessage sv (ToolResults f0) v0 = (Inr r1, w1)"
    and "functionCalls r1 = Some c1" and "for_calls sv c1 [] w1 = (f1, e1, v1)"
    and "sendMessage sv (ToolResults f1) v1 = (Inr r2, w2)"
    and "functionCalls r2 = Some c2" and "for_calls sv c2 [] w2 = (f2, e2, v2)"
    and "sendMessage sv (ToolResults f2) v2 = (Inr r3, w3)"
    and "functionCalls r3 = Some c3" and "for_calls sv c3 [] w3 = (f3, e3, v3)"
    and "sendMessage sv (ToolResults f3) v3 = (Inr r4, w4)"
    and "functionCalls r4 = Some c4" and "for_calls sv c4 [] w4 = (f4, e4, v4)"
    and "sendMessage sv (ToolResults f4) v4 = (Inr r5, w5)"
  shows "function_call_loop sv r0 0 w0 =
     (Inr r5, 5,
      e0 @ [SendMessage (ToolResults f0)] @ e1 @ [SendMessage (ToolResults f1)] @
      e2 @ [SendMessage (ToolResults f2)] @ e3 @ [SendMessage (ToolResults f3)] @
      e4 @ [SendMessage (ToolResults f4)], w5)"
proof -
  have s5: "function_call_loop sv r5 5 w5 = (Inr r5, 5, [], w5)"
    by (rule function_call_loop_cap)
  have s4: "function_call_loop sv r4 4 w4 =
      (Inr r5, 5, e4 @ [SendMessage (ToolResults f4)] @ [], w5)"
    by (rule function_call_loop_step [OF assms(13) _ assms(14,15) _ s5]) simp_all
  have s3: "function_call_loop sv r3 3 w3 =
      (Inr r5, 5,
       e3 @ [SendMessage (ToolResults f3)] @ e4 @ [SendMessage (ToolResults f4)] @ [], w5)"
    by (rule function_call_loop_step [OF assms(10) _ assms(11,12) _ s4]) simp_all
  have s2: "function_call_loop sv r2 2 w2 =
      (Inr r5, 5,
       e2 @ [SendMessage (ToolResults f2)] @ e3 @ [SendMessage (ToolResults f3)] @
       e4 @ [SendMessage (ToolResults f4)] @ [], w5)"
    by (rule function_call_loop_step [OF assms(7) _ assms(8,9) _ s3]) simp_all
  have s1: "function_call_loop sv r1 1 w1 =
      (Inr r5, 5,
       e1 @ [SendMessage (ToolResults f1)] @ e2 @ [SendMessage (ToolResults f2)] @
       e3 @ [SendMessage (ToolResults f3)] @ e4 @ [SendMessage (ToolResults f4)] @ [], w5)"
    by (rule function_call_loop_step [OF assms(4) _ assms(5,6) _ s2]) simp_all
  have "function_call_loop sv r0 0 w0 =
      (Inr r5, 5,
       e0 @ [SendMessage (ToolResults f0)] @ e1 @ [SendMessage (ToolResults f1)] @
       e2 @ [SendMessage (ToolResults f2)] @ e3 @ [SendMessage (ToolResults f3)] @
       e4 @ [SendMessage (ToolResults f4)] @ [], w5)"
    by (rule function_call_loop_step [OF assms(1) _ assms(2,3) _ s1]) simp_all
  then show ?thesis by simp
qed

lemma attempt_runs_loop:
  assumes "sendMessage sv (UserQuery q) w = (Inr r0, w0)"
    and "function_call_loop sv r0 0 w0 = (out, n, evs, w')"
  shows "attempt sv q w =
     (case out of
        Inl e \<Rightarrow> Inl e
      | Inr r \<Rightarrow> Inr \<lparr>agent_text = extract_text r, sources = extract_sources r\<rparr>,
      SendMessage (UserQuery q) # evs, w')"
  using assms by (simp add: attempt_def split: sum.splits)


text \<open>
  C2. One turn attempt always ends, whatever the model service and the tool executor
  answer, and sends at most 5 messages of tool results. When the model answers the query,
  the attempt runs the function-call loop from \<open>iterations = 0\<close> on that answer; the loop
  exits with \<open>iterations\<close> at most 5, having sent exactly that many messages of tool
  results, and it exits normally below 5 only on a response without function calls.
  Against a model every response of which carries function calls, the loop runs exactly
  five rounds, each fetching the calls of the last response and sending their results: it
  exits with \<open>iterations = 5\<close> in the world left by the fifth message of tool results,
  and the attempt's result is read from the response to that message, although it asks
  for calls again.
\<close>

theorem attempt_stops_after_five_iterations:
  "\<exists>res ev w'.
     attempt sv userQuery w = (res, ev, w') \<and>
     length (filter is_tool_results_send ev) \<le> 5 \<and>
     (\<forall>r0 w0. sendMessage sv (UserQuery userQuery) w = (Inr r0, w0) \<longrightarrow>
        (\<exists>out n evs.
           function_call_loop sv r0 0 w0 = (out, n, evs, w') \<and>
           n \<le> 5 \<and> length (filter is_tool_results_send evs) = n \<and>
           ev = SendMessage (UserQuery userQuery) # evs \<and>
           res =
             (case out of
                Inl e \<Rightarrow> Inl e
              | Inr r \<Rightarrow> Inr \<lparr>agent_text = extract_text r, sources = extract_sources r\<rparr>) \<and>
           (\<forall>r. out = Inr r \<longrightarrow> n = 5 \<or> functionCalls r = None))) \<and>
     ((\<forall>m v. \<exists>r v'. sendMessage sv m v = (Inr r, v') \<and> functionCalls r \<noteq> None) \<longrightarrow>
        (\<exists>r0 w0 c0 f0 e0 v0 r1 w1 c1 f1 e1 v1 r2 w2 c2 f2 e2 v2 r3 w3 c3 f3 e3 v3
            r4 w4 c4 f4 e4 v4 r5.
           sendMessage sv (UserQuery userQuery) w = (Inr r0, w0) \<and>
           functionCalls r0 = Some c0 \<and> for_calls sv c0 [] w0 = (f0, e0, v0) \<and>
           sendMessage sv (ToolResults f0) v0 = (Inr r1, w1) \<and>
           functionCalls r1 = Some c1 \<and> for_calls sv c1 [] w1 = (f1, e1, v1) \<and>
           sendMessage sv (ToolResults f1) v1 = (Inr r2, w2) \<and>
           functionCalls r2 = Some c2 \<and> for_calls sv c2 [] w2 = (f2, e2, v2) \<and>
           sendMessage sv (ToolResults f2) v2 = (Inr r3, w3) \<and>
           functionCalls r3 = Some c3 \<and> for_calls sv c3 [] w3 = (f3, e3, v3) \<and>
           sendMessage sv (ToolResults f3) v3 = (Inr r4, w4) \<and>
           functionCalls r4 = Some c4 \<and> for_calls sv c4 [] w4 = (f4, e4, v4) \<and>
           sendMessage sv (ToolResults f4) v4 = (Inr r5, w') \<and>
           functionCalls r5 \<noteq> None \<and>
           function_call_loop sv r0 0 w0 =
             (Inr r5, 5,
              e0 @ [SendMessage (ToolResults f0)] @ e1 @ [SendMessage (ToolResults f1)] @
              e2 @ [SendMessage (ToolResults f2)] @ e3 @ [SendMessage (ToolResults f3)] @
              e4 @ [SendMessage (ToolResults f4)], w') \<and>
           res = Inr \<lparr>agent_text = extract_text r5, sources = extract_sources r5\<rparr> \<and>
           ev =
             SendMessage (UserQuery userQuery) #
             e0 @ [SendMessage (ToolResults f0)] @ e1 @ [SendMessage (ToolResults f1)] @
             e2 @ [SendMessage (ToolResults f2)] @ e3 @ [SendMessage (ToolResults f3)] @
             e4 @ [SendMessage (ToolResults f4)]))"
proof -
  obtain res ev w' where run: "attempt sv userQuery w = (res, ev, w')"
    by (cases "attempt sv userQuery w") auto
  obtain reply wq where query: "sendMessage sv (UserQuery userQuery) w = (reply, wq)"
    by (cases "sendMessage sv (UserQuery userQuery) w") auto
  have loop: "\<exists>out n evs.
      function_call_loop sv r0 0 w0 = (out, n, evs, w') \<and>
      n \<le> 5 \<and> length (filter is_tool_results_send evs) = n \<and>
      ev = SendMessage (UserQuery userQuery) # evs \<and>
      res =
        (case out of
           Inl e \<Rightarrow> Inl e
         | Inr r \<Rightarrow> Inr \<lparr>agent_text = extract_text r, sources = extract_sources r\<rparr>) \<and>
      (\<forall>r. out = Inr r \<longrightarrow> n = 5 \<or> functionCalls r = None)"
    if answered: "sendMessage sv (UserQuery userQuery) w = (Inr r0, w0)" for r0 w0
  proof -
    obtain out n evs wl where fl: "function_call_loop sv r0 0 w0 = (out, n, evs, wl)"
      by (cases "function_call_loop sv r0 0 w0") auto
    from attempt_runs_loop [OF answered fl] run
    have parts: "res =
        (case out of
           Inl e \<Rightarrow> Inl e
         | Inr r \<Rightarrow> Inr \<lparr>agent_text = extract_text r, sources = extract_sources r\<rparr>)"
      "ev = SendMessage (UserQuery userQuery) # evs" "wl = w'"
      by simp_all
    have count: "n \<le> 5 \<and> length (filter is_tool_results_send evs) = n"
      using function_call_loop_counter [OF fl] by simp
    have exit: "\<forall>r. out = Inr r \<longrightarrow> n = 5 \<or> functionCalls r = None"
      using function_call_loop_exit [of sv r0 0 w0 _ n evs wl] fl by simp
    from fl parts count exit show ?thesis
      by simp
  qed
  have sends: "length (filter is_tool_results_send ev) \<le> 5"
  proof (cases reply)
    case (Inl e)
    with query run show ?thesis
      by (auto simp: attempt_def)
  next
    case (Inr r0)
    with query loop [of r0 wq] show ?thesis
      by auto
  qed
  have five: "\<exists>r0 w0 c0 f0 e0 v0 r1 w1 c1 f1 e1 v1 r2 w2 c2 f2 e2 v2 r3 w3 c3 f3 e3 v3
        r4 w4 c4 f4 e4 v4 r5.
      sendMessage sv (UserQuery userQuery) w = (Inr r0, w0) \<and>
      functionCalls r0 = Some c0 \<and> for_calls sv c0 [] w0 = (f0, e0, v0) \<and>
      sendMessage sv (ToolResults f0) v0 = (Inr r1, w1) \<and>
      functionCalls r1 = Some c1 \<and> for_calls sv c1 [] w1 = (f1, e1, v1) \<and>
      sendMessage sv (ToolResults f1) v1 = (Inr r2, w2) \<and>
      functionCalls r2 = Some c2 \<and> for_calls sv c2 [] w2 = (f2, e2, v2) \<and>
      sendMessage sv (ToolResults f2) v2 = (Inr r3, w3) \<and>
      functionCalls r3 = Some c3 \<and> for_calls sv c3 [] w3 = (f3, e3, v3) \<and>
      sendMessage sv (ToolResults f3) v3 = (Inr r4, w4) \<and>
      functionCalls r4 = Some c4 \<and> for_calls sv c4 [] w4 = (f4, e4, v4) \<and>
      sendMessage sv (ToolResults f4) v4 = (Inr r5, w') \<and>
      functionCalls r5 \<noteq> None \<and>
      function_call_loop sv r0 0 w0 =
        (Inr r5, 5,
         e0 @ [SendMessage (ToolResults f0)] @ e1 @ [SendMessage (ToolResults f1)] @
         e2 @ [SendMessage (ToolResults f2)] @ e3 @ [SendMessage (ToolResults f3)] @
         e4 @ [SendMessage (ToolResults f4)], w') \<and>
      res = Inr \<lparr>agent_text = extract_text r5, sources = extract_sources r5\<rparr> \<and>
      ev =
        SendMessage (UserQuery userQuery) #
        e0 @ [SendMessage (ToolResults f0)] @ e1 @ [SendMessage (ToolResults f1)] @
        e2 @ [SendMessage (ToolResults f2)] @ e3 @ [SendMessage (ToolResults f3)] @
        e4 @ [SendMessage (ToolResults f4)]"
    if always: "\<forall>m v. \<exists>r v'. sendMessage sv m v = (Inr r, v') \<and> functionCalls r \<noteq> None"
  proof -
    from always obtain r0 w0 c0 where
      q0: "sendMessage sv (UserQuery userQuery) w = (Inr r0, w0)" and
      c0: "functionCalls r0 = Some c0"
      by (metis not_None_eq)
    obtain f0 e0 v0 where d0: "for_calls sv c0 [] w0 = (f0, e0, v0)"
      by (cases "for_calls sv c0 [] w0") auto
    from always obtain r1 w1 c1 where
      s0: "sendMessage sv (ToolResults f0) v0 = (Inr r1, w1)" and
      c1: "functionCalls r1 = Some c1"
      by (metis not_None_eq)
    obtain f1 e1 v1 where d1: "for_calls sv c1 [] w1 = (f1, e1, v1)"
      by (cases "for_calls sv c1 [] w1") auto
    from always obtain r2 w2 c2 where
      s1: "sendMessage sv (ToolResults f1) v1 = (Inr r2, w2)" and
      c2: "functionCalls r2 = Some c2"
      by (metis not_None_eq)
    obtain f2 e2 v2 where d2: "for_calls sv c2 [] w2 = (f2, e2, v2)"
      by (cases "for_calls sv c2 [] w2") auto
    from always obtain r3 w3 c3 where
      s2: "sendMessage sv (ToolResults f2) v2 = (Inr r3, w3)" and
      c3: "functionCalls r3 = Some c3"
      by (metis not_None_eq)
    obtain f3 e3 v3 where d3: "for_calls sv c3 [] w3 = (f3, e3, v3)"
      by (cases "for_calls sv c3 [] w3") auto
    from always obtain r4 w4 c4 where
      s3: "sendMessage sv (ToolResults f3) v3 = (Inr r4, w4)" and
      c4: "functionCalls r4 = Some c4"
      by (metis not_None_eq)
    obtain f4 e4 v4 where d4: "for_calls sv c4 [] w4 = (f4, e4, v4)"
      by (cases "for_calls sv c4 [] w4") auto
    from always obtain r5 w5 where
      s4: "sendMessage sv (ToolResults f4) v4 = (Inr r5, w5)" and
      c5: "functionCalls r5 \<noteq> None"
      by blast
    have fl: "function_call_loop sv r0 0 w0 =
        (Inr r5, 5,
         e0 @ [SendMessage (ToolResults f0)] @ e1 @ [SendMessage (ToolResults f1)] @
         e2 @ [SendMessage (ToolResults f2)] @ e3 @ [SendMessage (ToolResults f3)] @
         e4 @ [SendMessage (ToolResults f4)], w5)"
      using c0 d0 s0 c1 d1 s1 c2 d2 s2 c3 d3 s3 c4 d4 s4 by (rule five_rounds)
    from attempt_runs_loop [OF q0 fl] run
    have parts: "res = Inr \<lparr>agent_text = extract_text r5, sources = extract_sources r5\<rparr>"
      "ev =
        SendMessage (UserQuery userQuery) #
        e0 @ [SendMessage (ToolResults f0)] @ e1 @ [SendMessage (ToolResults f1)] @
        e2 @ [SendMessage (ToolResults f2)] @ e3 @ [SendMessage (ToolResults f3)] @
        e4 @ [SendMessage (ToolResults f4)]" "w5 = w'"
      by simp_all
    note last = s4 [unfolded parts(3)] and whole = fl [unfolded parts(3)]
    show ?thesis
      by (intro exI conjI)
        (rule q0 c0 d0 s0 c1 d1 s1 c2 d2 s2 c3 d3 s3 c4 d4 last c5 whole parts(1) parts(2))+
  qed
  have bounded: "\<forall>r0 w0. sendMessage sv (UserQuery userQuery) w = (Inr r0, w0) \<longrightarrow>
      (\<exists>out n evs.
         function_call_loop sv r0 0 w0 = (out, n, evs, w') \<and>
         n \<le> 5 \<and> length (filter is_tool_results_send evs) = n \<and>
         ev = SendMessage (UserQuery userQuery) # evs \<and>
         res =
           (case out of
              Inl e \<Rightarrow> Inl e
            | Inr r \<Rightarrow> Inr \<lparr>agent_text = extract_text r, sources = extract_sources r\<rparr>) \<and>
         (\<forall>r. out = Inr r \<longrightarrow> n = 5 \<or> functionCalls r = None))"
    using loop by blast
  show ?thesis
    apply (rule exI [of _ res], rule exI [of _ ev], rule exI [of _ w'])
    apply (intro conjI)
       apply (rule run)
      apply (rule sends)
     apply (rule bounded)
    apply (rule impI)
    apply (erule five)
    done
qed


theorem attempt_stops_after_five_iterations_witness:
  "(\<forall>m v. \<exists>r v'. sendMessage insistent m v = (Inr r, v') \<and> functionCalls r \<noteq> None) \<and>
   fst (attempt insistent ''List my repos'' 0) =
     Inr \<lparr>agent_text = ''Task completed.'', sources = []\<rparr> \<and>
   length (filter is_tool_results_send (fst (snd (attempt insistent ''List my repos'' 0)))) = 5 \<and>
   snd (snd (attempt insistent ''List my repos'' 0)) = 6"
proof -
  let ?R = "\<lparr>response_text = None, functionCalls = Some three_calls, candidates = None\<rparr>"
  let ?frs =
    "[\<lparr>resp_name = Some ''list_github_repos'', resp_response = Content JNull,
       resp_id = Some ''1''\<rparr>,
      \<lparr>resp_name = Some ''send_gmail'', resp_response = Content JNull, resp_id = Some ''2''\<rparr>,
      \<lparr>resp_name = Some ''list_github_repos'', resp_response = Content JNull,
       resp_id = Some ''3''\<rparr>]"
  let ?fetches =
    "[Fetch (Some ''list_github_repos'') (Some (JObj [])), Fetch (Some ''send_gmail'') None,
      Fetch (Some ''list_github_repos'') (Some (JObj []))]"
  have always: "\<forall>m v. \<exists>r v'. sendMessage insistent m v = (Inr r, v') \<and> functionCalls r \<noteq> None"
    by (simp add: insistent_def)
  have c: "functionCalls ?R = Some three_calls"
    by simp
  have d: "for_calls insistent three_calls [] v = (?frs, ?fetches, v)" for v
    by (simp add: three_calls_def insistent_def invoke_def)
  have s: "sendMessage insistent m v = (Inr ?R, v + 1)" for m v
    by (simp add: insistent_def)
  have loop: "function_call_loop insistent ?R 0 (0 + 1) =
      (Inr ?R, 5,
       ?fetches @ [SendMessage (ToolResults ?frs)] @ ?fetches @ [SendMessage (ToolResults ?frs)] @
       ?fetches @ [SendMessage (ToolResults ?frs)] @ ?fetches @ [SendMessage (ToolResults ?frs)] @
       ?fetches @ [SendMessage (ToolResults ?frs)], 0 + 1 + 1 + 1 + 1 + 1 + 1)"
    by (rule five_rounds [OF c d s c d s c d s c d s c d s])
  have run: "attempt insistent ''List my repos'' 0 =
      (Inr \<lparr>agent_text = extract_text ?R, sources = extract_sources ?R\<rparr>,
       SendMessage (UserQuery ''List my repos'') #
       ?fetches @ [SendMessage (ToolResults ?frs)] @ ?fetches @ [SendMessage (ToolResults ?frs)] @
       ?fetches @ [SendMessage (ToolResults ?frs)] @ ?fetches @ [SendMessage (ToolResults ?frs)] @
       ?fetches @ [SendMessage (ToolResults ?frs)], 0 + 1 + 1 + 1 + 1 + 1 + 1)"
    using attempt_runs_loop [OF s loop] by simp
  from attempt_stops_after_five_iterations [of insistent "''List my repos''" 0] always
  show ?thesis
    unfolding run
    by (simp add: extract_text_def extract_sources_def grounding_chunks_def)
qed

subsection \<open>The retry loop, case by case\<close>

lemma retry_loop_success:
  "retryCount < maxRetries \<Longrightarrow> attempt sv q w = (Inr r, ev, w1) \<Longrightarrow>
     retry_loop sv q retryCount w = (Returned Success r, retryCount, ev, w1)"
  by (simp add: retry_loop.simps [of sv q retryCount w])

lemma retry_loop_retry:
  "retryCount < maxRetries - 1 \<Longrightarrow> attempt sv q w = (Inl e, ev, w1) \<Longrightarrow> isTransient e \<Longrightarrow>
     retry_loop sv q retryCount w =
       (case retry_loop sv q (retryCount + 1) w1 of
          (out, n, ev', w2) \<Rightarrow>
            (out, n,
             ev @ [ConsoleError (retryCount + 1) e, Sleep (2 ^ (retryCount + 1) * 1000)] @ ev',
             w2))"
proof -
  assume less: "retryCount < maxRetries - 1" and a: "attempt sv q w = (Inl e, ev, w1)"
    and t: "isTransient e"
  from less have "retryCount < maxRetries" by simp
  with less a t show ?thesis
    by (simp add: retry_loop.simps [of sv q retryCount w])
qed

lemma retry_loop_give_up:
  "retryCount < maxRetries \<Longrightarrow> attempt sv q w = (Inl e, ev, w1) \<Longrightarrow>
     \<not> isTransient e \<or> \<not> retryCount < maxRetries - 1 \<Longrightarrow>
     retry_loop sv q retryCount w =
       (remediate e, retryCount, ev @ [ConsoleError (retryCount + 1) e], w1)"
  by (auto simp: retry_loop.simps [of sv q retryCount w])

lemma consultAgent_with_key:
  "truthy (API_KEY env) \<or> truthy (GEMINI_API_KEY env) \<Longrightarrow>
     consultAgent env sv q w =
       (case retry_loop sv q 0 w of (out, n, ev, w') \<Rightarrow> (out, ChatCreate # ev, w'))"
  by (auto simp: consultAgent_def Let_def)

lemma retry_loop_cases:
  assumes "retryCount < maxRetries"
  obtains (success) r ev w1 where "attempt sv q w = (Inr r, ev, w1)"
      "retry_loop sv q retryCount w = (Returned Success r, retryCount, ev, w1)"
    | (retry) e ev w1 where "attempt sv q w = (Inl e, ev, w1)" "isTransient e"
      "retryCount < maxRetries - 1"
      "retry_loop sv q retryCount w =
         (case retry_loop sv q (retryCount + 1) w1 of
            (out, n, ev', w2) \<Rightarrow>
              (out, n,
               ev @ [ConsoleError (retryCount + 1) e, Sleep (2 ^ (retryCount + 1) * 1000)] @ ev',
               w2))"
    | (give_up) e ev w1 where "attempt sv q w = (Inl e, ev, w1)"
      "\<not> isTransient e \<or> \<not> retryCount < maxRetries - 1"
      "retry_loop sv q retryCount w =
         (remediate e, retryCount, ev @ [ConsoleError (retryCount + 1) e], w1)"
proof -
  obtain res ev w1 where a: "attempt sv q w = (res, ev, w1)"
    by (cases "attempt sv q w") auto
  show thesis
  proof (cases res)
    case (Inr r)
    with a assms show thesis
      by (intro success [of r ev w1]) (simp_all add: retry_loop_success)
  next
    case (Inl e)
    show thesis
    proof (cases "isTransient e \<and> retryCount < maxRetries - 1")
      case True
      with a Inl show thesis
        by (intro retry [of e ev w1]) (simp_all add: retry_loop_retry)
    next
      case False
      with a Inl assms show thesis
        by (intro give_up [of e ev w1]) (simp_all add: retry_loop_give_up)
    qed
  qed
qed

lemma remediate_sites:
  "remediate e = Returned QuotaExhausted quota_response \<or>
   remediate e = Returned InvalidKey invalid_key_response \<or>
   remediate e = Returned InternalError internal_error_response \<or>
   remediate e = Thrown e"
  by (simp add: remediate_def)

lemma retry_loop_counter:
  "retryCount < maxRetries \<Longrightarrow> retry_loop sv q retryCount w = (out, n, ev, w') \<Longrightarrow>
     retryCount \<le> n \<and> n < maxRetries \<and> (\<forall>a. out \<noteq> Returned Fallback a)"
proof (induction sv q retryCount w arbitrary: out n ev w' rule: retry_loop.induct)
  case (1 sv q retryCount w)
  from "1.prems"(1) show ?case
  proof (cases rule: retry_loop_cases [of retryCount sv q w])
    case (success r ev0 w1)
    with "1.prems" show ?thesis by auto
  next
    case (retry e ev0 w1)
    obtain out2 n2 ev2 w2 where
      rec: "retry_loop sv q (retryCount + 1) w1 = (out2, n2, ev2, w2)"
      by (cases "retry_loop sv q (retryCount + 1) w1") auto
    have "retryCount + 1 \<le> n2 \<and> n2 < maxRetries \<and> (\<forall>a. out2 \<noteq> Returned Fallback a)"
      using "1.IH" [OF "1.prems"(1) retry(1) [symmetric] refl refl _ _ rec] retry(2,3)
      by simp
    with retry(4) rec "1.prems"(2) show ?thesis by auto
  next
    case (give_up e ev0 w1)
    with "1.prems" remediate_sites [of e] show ?thesis by auto
  qed
qed

lemma retry_loop_failure_sources:
  "retry_loop sv q retryCount w = (Returned site a, n, ev, w') \<Longrightarrow> site \<noteq> Success \<Longrightarrow>
     sources a = []"
proof (induction sv q retryCount w arbitrary: site a n ev w' rule: retry_loop.induct)
  case (1 sv q retryCount w)
  show ?case
  proof (cases "retryCount < maxRetries")
    case False
    with "1.prems" show ?thesis
      by (auto simp: retry_loop.simps [of sv q retryCount w] fallback_response_def)
  next
    case True
    then show ?thesis
    proof (cases rule: retry_loop_cases [of retryCount sv q w])
      case (success r ev0 w1)
      with "1.prems" show ?thesis by simp
    next
      case (retry e ev0 w1)
      obtain out2 n2 ev2 w2 where
        rec: "retry_loop sv q (retryCount + 1) w1 = (out2, n2, ev2, w2)"
        by (cases "retry_loop sv q (retryCount + 1) w1") auto
      with retry(4) "1.prems"(1) have out2: "out2 = Returned site a"
        by simp
      show ?thesis
        using "1.IH" [OF True retry(1) [symmetric] refl refl _ rec [unfolded out2]]
          retry(2,3) "1.prems"(2)
        by simp
    next
      case (give_up e ev0 w1)
      with "1.prems" remediate_sites [of e] show ?thesis
        by (auto simp: quota_response_def invalid_key_response_def internal_error_response_def)
    qed
  qed
qed

subsection \<open>Running the example services\<close>

lemma attempt_scripted_error:
  "attempt scripted q (Inl e # rest) = (Inl e, [SendMessage (UserQuery q)], rest)"
  by (simp add: attempt_def scripted_def)

lemma attempt_scripted_answer:
  "functionCalls r = None \<Longrightarrow>
     attempt scripted q (Inr r # rest) =
       (Inr \<lparr>agent_text = extract_text r, sources = extract_sources r\<rparr>,
        [SendMessage (UserQuery q)], rest)"
  by (simp add: attempt_def scripted_def function_call_loop.simps)

lemma env_with_key_truthy:
  "truthy (API_KEY env_with_key) \<or> truthy (GEMINI_API_KEY env_with_key)"
  by (simp add: env_with_key_def)

lemma internal_error_patterns:
  "isTransient internal_error"
  "\<not> message_includes internal_error ''429''"
  "\<not> message_includes internal_error ''RESOURCE_EXHAUSTED''"
  "\<not> message_includes internal_error ''API_KEY_INVALID''"
  "\<not> message_includes internal_error ''invalid API key''"
  "message_includes internal_error ''500''"
  by (simp_all add: isTransient_def message_includes_def internal_error_def)

lemma quota_error_patterns:
  "\<not> isTransient quota_error"
  "message_includes quota_error ''429''"
  by (simp_all add: isTransient_def message_includes_def quota_error_def)

lemma retry_loop_retry_to:
  assumes "retryCount < maxRetries - 1" and "attempt sv q w = (Inl e, ev, w1)"
    and "isTransient e" and "next_count = retryCount + 1"
    and "retry_loop sv q next_count w1 = (out, n, ev', w2)"
  shows "retry_loop sv q retryCount w =
     (out, n, ev @ [ConsoleError next_count e, Sleep (2 ^ next_count * 1000)] @ ev', w2)"
  using assms by (simp add: retry_loop_retry)

lemma two_transient_failures:
  assumes a1: "attempt sv q w = (Inl e1, ev1, w1)" and t1: "isTransient e1"
    and a2: "attempt sv q w1 = (Inl e2, ev2, w2)" and t2: "isTransient e2"
    and third: "retry_loop sv q 2 w2 = (out, n, ev3, w3)"
  shows "retry_loop sv q 0 w =
     (out, n,
      ev1 @ [ConsoleError 1 e1, Sleep 2000] @ ev2 @ [ConsoleError 2 e2, Sleep 4000] @ ev3, w3)"
proof -
  have second: "retry_loop sv q 1 w1 =
      (out, n, ev2 @ [ConsoleError 2 e2, Sleep (2 ^ 2 * 1000)] @ ev3, w3)"
    by (rule retry_loop_retry_to [OF _ a2 t2 _ third]) (simp_all add: maxRetries_def)
  have "retry_loop sv q 0 w =
      (out, n,
       ev1 @ [ConsoleError 1 e1, Sleep (2 ^ 1 * 1000)] @
         (ev2 @ [ConsoleError 2 e2, Sleep (2 ^ 2 * 1000)] @ ev3), w3)"
    by (rule retry_loop_retry_to [OF _ a1 t1 _ second]) (simp_all add: maxRetries_def)
  then show ?thesis by simp
qed

subsection \<open>The missing credential\<close>

text \<open>
  C7. When neither \<open>API_KEY\<close> nor \<open>GEMINI_API_KEY\<close> holds a credential (each is
  undefined or empty), \<open>consultAgent\<close> returns the missing-key response for every query:
  no chat session is created, no message is sent, no tool is fetched, and the outside
  world is left as it was.
\<close>

theorem missing_key_short_circuits:
  "\<not> truthy (API_KEY env) \<Longrightarrow> \<not> truthy (GEMINI_API_KEY env) \<Longrightarrow>
     consultAgent env sv userQuery w = (Returned MissingKey missing_key_response, [], w)"
  by (simp add: consultAgent_def)

theorem missing_key_short_circuits_witness:
  "\<not> truthy (API_KEY env_without_key) \<and> \<not> truthy (GEMINI_API_KEY env_without_key) \<and>
   consultAgent env_without_key insistent ''List my repos'' 0 =
     (Returned MissingKey missing_key_response, [], 0)"
proof -
  have a: "\<not> truthy (API_KEY env_without_key)"
    by (simp add: env_without_key_def)
  have b: "\<not> truthy (GEMINI_API_KEY env_without_key)"
    by (simp add: env_without_key_def)
  from missing_key_short_circuits [OF a b, of insistent "''List my repos''" 0] a b
  show ?thesis by simp
qed

subsection \<open>The statement after the retry loop\<close>

text \<open>
  C9. Whatever the services answer, \<open>retryCount\<close> is at most 2 when the retry loop of
  \<open>consultAgent\<close> is left, so below \<open>maxRetries = 3\<close>; it only ever grows, so it is at
  most 2 throughout. The loop is never left through its condition: the \<open>return\<close> after
  the loop is not the one that ends \<open>consultAgent\<close>.
\<close>

theorem fallback_return_unreachable:
  "fst (snd (retry_loop sv userQuery 0 w)) \<le> 2 \<and>
   fst (snd (retry_loop sv userQuery 0 w)) < maxRetries \<and>
   (\<forall>a. fst (retry_loop sv userQuery 0 w) \<noteq> Returned Fallback a) \<and>
   (\<forall>a. fst (consultAgent env sv userQuery w) \<noteq> Returned Fallback a)"
proof -
  obtain out n ev w' where run: "retry_loop sv userQuery 0 w = (out, n, ev, w')"
    by (cases "retry_loop sv userQuery 0 w") auto
  have "0 < maxRetries"
    by (simp add: maxRetries_def)
  from retry_loop_counter [OF this run]
  have inv: "n < maxRetries \<and> (\<forall>a. out \<noteq> Returned Fallback a)"
    by simp
  then have "n \<le> 2"
    by (simp add: maxRetries_def)
  moreover have "\<forall>a. fst (consultAgent env sv userQuery w) \<noteq> Returned Fallback a"
    using inv run by (simp add: consultAgent_def Let_def)
  ultimately show ?thesis
    using inv run by simp
qed

theorem fallback_return_unreachable_witness:
  "retry_loop scripted ''List my repos'' 0 [Inl internal_error, Inl internal_error, Inl internal_error] =
     (Returned InternalError internal_error_response, 2,
      [SendMessage (UserQuery ''List my repos''), ConsoleError 1 internal_error, Sleep 2000,
       SendMessage (UserQuery ''List my repos''), ConsoleError 2 internal_error, Sleep 4000,
       SendMessage (UserQuery ''List my repos''), ConsoleError 3 internal_error], []) \<and>
   fst (snd (retry_loop scripted ''List my repos'' 0
     [Inl internal_error, Inl internal_error, Inl internal_error])) \<le> 2"
proof -
  have third: "retry_loop scripted ''List my repos'' 2 [Inl internal_error] =
      (Returned InternalError internal_error_response, 2,
       [SendMessage (UserQuery ''List my repos'')] @ [ConsoleError (2 + 1) internal_error], [])"
    by (subst retry_loop_give_up [OF _ attempt_scripted_error])
      (simp_all add: maxRetries_def remediate_def internal_error_patterns)
  have run: "retry_loop scripted ''List my repos'' 0
        [Inl internal_error, Inl internal_error, Inl internal_error] =
      (Returned InternalError internal_error_response, 2,
       [SendMessage (UserQuery ''List my repos''), ConsoleError 1 internal_error, Sleep 2000,
        SendMessage (UserQuery ''List my repos''), ConsoleError 2 internal_error, Sleep 4000,
        SendMessage (UserQuery ''List my repos''), ConsoleError 3 internal_error], [])"
    using two_transient_failures [OF attempt_scripted_error internal_error_patterns(1)
        attempt_scripted_error internal_error_patterns(1) third]
    by simp
  from fallback_return_unreachable
    [of scripted "''List my repos''" "[Inl internal_error, Inl internal_error, Inl internal_error]"]
    run
  show ?thesis by simp
qed

subsection \<open>Responses that report a failure\<close>

text \<open>
  C10. A response that \<open>consultAgent\<close> returns from any \<open>return\<close> statement other
  than the one of a successful attempt has an empty list of sources; these are the
  missing-key, quota-exhausted, invalid-key and internal-error responses and the response
  after the retry loop.
\<close>

theorem failure_responses_have_no_sources:
  "(\<forall>site a ev w'.
      consultAgent env sv userQuery w = (Returned site a, ev, w') \<and> site \<noteq> Success \<longrightarrow>
      sources a = []) \<and>
   sources missing_key_response = [] \<and> sources quota_response = [] \<and>
   sources invalid_key_response = [] \<and> sources internal_error_response = [] \<and>
   sources fallback_response = []"
proof -
  have "sources a = []"
    if run: "consultAgent env sv userQuery w = (Returned site a, ev, w')"
      and site: "site \<noteq> Success" for site a ev w'
  proof (cases "truthy (API_KEY env) \<or> truthy (GEMINI_API_KEY env)")
    case False
    with run show ?thesis
      by (auto simp: consultAgent_def missing_key_response_def)
  next
    case True
    obtain out n ev2 w2 where rl: "retry_loop sv userQuery 0 w = (out, n, ev2, w2)"
      by (cases "retry_loop sv userQuery 0 w") auto
    with run True have "out = Returned site a"
      by (simp add: consultAgent_with_key)
    with rl site show ?thesis
      by (auto dest: retry_loop_failure_sources)
  qed
  then show ?thesis
    by (auto simp: missing_key_response_def quota_response_def invalid_key_response_def
        internal_error_response_def fallback_response_def)
qed

theorem failure_responses_have_no_sources_witness:
  "consultAgent env_with_key scripted ''List my repos'' [Inl quota_error] =
     (Returned QuotaExhausted quota_response,
      [ChatCreate, SendMessage (UserQuery ''List my repos''), ConsoleError 1 quota_error], []) \<and>
   QuotaExhausted \<noteq> Success \<and> sources quota_response = []"
proof -
  have loop: "retry_loop scripted ''List my repos'' 0 [Inl quota_error] =
      (Returned QuotaExhausted quota_response, 0,
       [SendMessage (UserQuery ''List my repos''), ConsoleError 1 quota_error], [])"
    by (subst retry_loop_give_up [OF _ attempt_scripted_error])
      (simp_all add: maxRetries_def remediate_def quota_error_patterns)
  have run: "consultAgent env_with_key scripted ''List my repos'' [Inl quota_error] =
     (Returned QuotaExhausted quota_response,
      [ChatCreate, SendMessage (UserQuery ''List my repos''), ConsoleError 1 quota_error], [])"
    by (simp add: consultAgent_with_key [OF env_with_key_truthy] loop)
  from failure_responses_have_no_sources
    [of env_with_key scripted "''List my repos''" "[Inl quota_error]"] run
  show ?thesis by simp
qed

subsection \<open>Counting the attempts\<close>

lemma for_calls_no_attempt_start:
  "for_calls sv calls [] w = (rs, ev, w') \<Longrightarrow> filter is_attempt_start ev = []"
  by (drule for_calls_events) (simp add: filter_empty_conv)

lemma function_call_loop_no_attempt_start:
  "function_call_loop sv response iterations w = (res, n, ev, w') \<Longrightarrow>
     filter is_attempt_start ev = []"
proof (induction sv response iterations w arbitrary: res n ev w' rule: function_call_loop.induct)
  case (1 sv response iterations w)
  show ?case
  proof (cases "functionCalls response")
    case None
    with "1.prems" show ?thesis
      by (auto simp: function_call_loop.simps [of sv response iterations w])
  next
    case (Some calls)
    show ?thesis
    proof (cases "iterations < 5")
      case False
      with Some "1.prems" show ?thesis
        by (auto simp: function_call_loop.simps [of sv response iterations w])
    next
      case True
      obtain frs ev1 w1 where fc: "for_calls sv calls [] w = (frs, ev1, w1)"
        by (cases "for_calls sv calls [] w") auto
      obtain reply w2 where sm: "sendMessage sv (ToolResults frs) w1 = (reply, w2)"
        by (cases "sendMessage sv (ToolResults frs) w1") auto
      have nos: "filter is_attempt_start ev1 = []"
        using fc by (rule for_calls_no_attempt_start)
      show ?thesis
      proof (cases reply)
        case (Inl e)
        with Some True fc sm "1.prems" nos show ?thesis
          by (auto simp: function_call_loop.simps [of sv response iterations w])
      next
        case (Inr response')
        obtain res2 n2 ev2 w3 where
          rec: "function_call_loop sv response' (iterations + 1) w2 = (res2, n2, ev2, w3)"
          by (cases "function_call_loop sv response' (iterations + 1) w2") auto
        have ih: "filter is_attempt_start ev2 = []"
          using "1.IH" [OF Some True fc [symmetric] refl sm [symmetric] _ rec] Inr
          by simp
        from Some True fc sm Inr rec "1.prems" nos ih show ?thesis
          by (auto simp: function_call_loop.simps [of sv response iterations w])
      qed
    qed
  qed
qed

lemma attempt_one_start:
  "attempt sv q w = (res, ev, w') \<Longrightarrow> length (filter is_attempt_start ev) = 1"
  by (auto simp: attempt_def split: prod.splits sum.splits
      dest: function_call_loop_no_attempt_start)

lemma retry_loop_attempts:
  "retry_loop sv q retryCount w = (out, n, ev, w') \<Longrightarrow>
     length (filter is_attempt_start ev) \<le> maxRetries - retryCount"
proof (induction sv q retryCount w arbitrary: out n ev w' rule: retry_loop.induct)
  case (1 sv q retryCount w)
  show ?case
  proof (cases "retryCount < maxRetries")
    case False
    with "1.prems" show ?thesis
      by (auto simp: retry_loop.simps [of sv q retryCount w])
  next
    case True
    then show ?thesis
    proof (cases rule: retry_loop_cases [of retryCount sv q w])
      case (success r ev0 w1)
      with "1.prems" True attempt_one_start [OF success(1)] show ?thesis by auto
    next
      case (retry e ev0 w1)
      obtain out2 n2 ev2 w2 where
        rec: "retry_loop sv q (retryCount + 1) w1 = (out2, n2, ev2, w2)"
        by (cases "retry_loop sv q (retryCount + 1) w1") auto
      have "length (filter is_attempt_start ev2) \<le> maxRetries - (retryCount + 1)"
        using "1.IH" [OF True retry(1) [symmetric] refl refl _ rec] retry(2,3)
        by simp
      with retry(3,4) rec "1.prems" attempt_one_start [OF retry(1)] show ?thesis
        by auto
    next
      case (give_up e ev0 w1)
      with "1.prems" True attempt_one_start [OF give_up(1)] show ?thesis by auto
    qed
  qed
qed

lemma consultAgent_attempts:
  "length (filter is_attempt_start (fst (snd (consultAgent env sv q w)))) \<le> 3"
proof (cases "truthy (API_KEY env) \<or> truthy (GEMINI_API_KEY env)")
  case False
  then show ?thesis
    by (simp add: consultAgent_def)
next
  case True
  obtain out n ev w' where run: "retry_loop sv q 0 w = (out, n, ev, w')"
    by (cases "retry_loop sv q 0 w") auto
  from retry_loop_attempts [OF run] have "length (filter is_attempt_start ev) \<le> 3"
    by (simp add: maxRetries_def)
  with run True show ?thesis
    by (simp add: consultAgent_with_key)
qed

lemma deadline_error_patterns:
  "isTransient deadline_error"
  "\<not> message_includes deadline_error ''429''"
  "\<not> message_includes deadline_error ''RESOURCE_EXHAUSTED''"
  "\<not> message_includes deadline_error ''API_KEY_INVALID''"
  "\<not> message_includes deadline_error ''invalid API key''"
  "\<not> message_includes deadline_error ''500''"
  "\<not> message_includes deadline_error ''INTERNAL''"
  by (simp_all add: isTransient_def message_includes_def deadline_error_def)

lemma extract_plain_answer:
  "functionCalls plain_answer = None"
  "extract_text plain_answer = ''Here are your repos: r1.''"
  "extract_sources plain_answer = []"
  by (simp_all add: plain_answer_def extract_text_def extract_sources_def grounding_chunks_def)

subsection \<open>A turn with one tool round trip\<close>

lemma function_call_loop_done:
  "functionCalls response = None \<Longrightarrow>
     function_call_loop sv response iterations w = (Inr response, iterations, [], w)"
  by (simp add: function_call_loop.simps)

lemma scripted_sendMessage:
  "sendMessage scripted m (reply # rest) = (reply, rest)"
  by (simp add: scripted_def)

lemma scripted_execute:
  "call_name call \<noteq> Some ''send_gmail'' \<Longrightarrow> execute scripted call w = (Inr (JArr []), w)"
  by (simp add: scripted_def)

text \<open>
  The scenario of one tool round trip: the model asks for \<open>list_github_repos\<close>, gets
  the result, and answers.
\<close>

lemma scenario_list_my_repos:
  "consultAgent env_with_key scripted ''List my repos'' [Inr list_repos_request, Inr plain_answer] =
     (Returned Success \<lparr>agent_text = ''Here are your repos: r1.'', sources = []\<rparr>,
      [ChatCreate,
       SendMessage (UserQuery ''List my repos''),
       Fetch (Some ''list_github_repos'') (Some (JObj [])),
       SendMessage (ToolResults
         [\<lparr>resp_name = Some ''list_github_repos'', resp_response = Content (JArr []),
           resp_id = Some ''1''\<rparr>])],
      [])"
proof -
  have loop: "function_call_loop scripted list_repos_request 0 [Inr plain_answer] =
      (Inr plain_answer, 1,
       [Fetch (Some ''list_github_repos'') (Some (JObj [])),
        SendMessage (ToolResults
          [\<lparr>resp_name = Some ''list_github_repos'', resp_response = Content (JArr []),
            resp_id = Some ''1''\<rparr>])],
       [])"
    by (subst function_call_loop.simps)
      (simp add: list_repos_request_def invoke_def scripted_execute scripted_sendMessage
        function_call_loop_done extract_plain_answer)
  have "attempt scripted ''List my repos'' [Inr list_repos_request, Inr plain_answer] =
      (Inr \<lparr>agent_text = ''Here are your repos: r1.'', sources = []\<rparr>,
       [SendMessage (UserQuery ''List my repos''),
        Fetch (Some ''list_github_repos'') (Some (JObj [])),
        SendMessage (ToolResults
          [\<lparr>resp_name = Some ''list_github_repos'', resp_response = Content (JArr []),
            resp_id = Some ''1''\<rparr>])],
       [])"
    by (simp add: attempt_def scripted_sendMessage loop extract_plain_answer)
  then show ?thesis
    by (simp add: consultAgent_with_key [OF env_with_key_truthy] retry_loop_success maxRetries_def)
qed

subsection \<open>Transient failures are retried\<close>

text \<open>
  C3. When the first and the second turn attempt fail with errors whose messages match the
  transient predicate and the third attempt succeeds, \<open>consultAgent\<close> returns the third
  attempt's response from the success \<open>return\<close>, unchanged. Between the attempts it logs
  the error and waits \<open>2 ^ retryCount\<close> seconds, 2000 ms before the second attempt and
  4000 ms before the third. No run of \<open>consultAgent\<close> starts more than 3 attempts.
\<close>

theorem transient_failures_are_retried:
  assumes "truthy (API_KEY env) \<or> truthy (GEMINI_API_KEY env)"
    and "attempt sv userQuery w = (Inl e1, ev1, w1)" and "isTransient e1"
    and "attempt sv userQuery w1 = (Inl e2, ev2, w2)" and "isTransient e2"
    and "attempt sv userQuery w2 = (Inr r, ev3, w3)"
  shows "consultAgent env sv userQuery w =
      (Returned Success r,
       ChatCreate # ev1 @ [ConsoleError 1 e1, Sleep (2 ^ 1 * 1000)] @
         ev2 @ [ConsoleError 2 e2, Sleep (2 ^ 2 * 1000)] @ ev3,
       w3) \<and>
    (\<forall>env' sv' q' w'.
       length (filter is_attempt_start
         (fst (snd (consultAgent env' (sv' :: 'w services) q' w')))) \<le> 3)"
proof -
  have third: "retry_loop sv userQuery 2 w2 = (Returned Success r, 2, ev3, w3)"
    using assms(6) by (simp add: retry_loop_success maxRetries_def)
  have "retry_loop sv userQuery 0 w =
      (Returned Success r, 2,
       ev1 @ [ConsoleError 1 e1, Sleep 2000] @ ev2 @ [ConsoleError 2 e2, Sleep 4000] @ ev3, w3)"
    using assms(2-5) third by (rule two_transient_failures)
  with assms(1) show ?thesis
    by (simp add: consultAgent_with_key consultAgent_attempts)
qed

theorem transient_failures_are_retried_witness:
  "consultAgent env_with_key scripted ''List my repos''
      [Inl deadline_error, Inl internal_error, Inr plain_answer] =
     (Returned Success \<lparr>agent_text = ''Here are your repos: r1.'', sources = []\<rparr>,
      [ChatCreate,
       SendMessage (UserQuery ''List my repos''), ConsoleError 1 deadline_error, Sleep 2000,
       SendMessage (UserQuery ''List my repos''), ConsoleError 2 internal_error, Sleep 4000,
       SendMessage (UserQuery ''List my repos'')],
      [])"
  using transient_failures_are_retried
    [where userQuery = "''List my repos''" and sv = scripted
       and w = "[Inl deadline_error, Inl internal_error, Inr plain_answer]",
     OF env_with_key_truthy attempt_scripted_error deadline_error_patterns(1)
       attempt_scripted_error internal_error_patterns(1)
       attempt_scripted_answer [OF extract_plain_answer(1)],
     THEN conjunct1]
  by (simp add: extract_plain_answer)

subsection \<open>The third attempt fails\<close>

lemma unavailable_error_patterns:
  "isTransient unavailable_error"
  "\<not> message_includes unavailable_error ''429''"
  "\<not> message_includes unavailable_error ''RESOURCE_EXHAUSTED''"
  "\<not> message_includes unavailable_error ''API_KEY_INVALID''"
  "\<not> message_includes unavailable_error ''invalid API key''"
  "\<not> message_includes unavailable_error ''500''"
  "\<not> message_includes unavailable_error ''INTERNAL''"
  by (simp_all add: isTransient_def message_includes_def unavailable_error_def)

lemma mixed_error_patterns:
  "isTransient mixed_error"
  "message_includes mixed_error ''429''"
  "message_includes mixed_error ''500''"
  by (simp_all add: isTransient_def message_includes_def mixed_error_def)

lemma network_error_patterns:
  "\<not> isTransient network_error"
  "\<not> message_includes network_error ''429''"
  "\<not> message_includes network_error ''RESOURCE_EXHAUSTED''"
  "\<not> message_includes network_error ''API_KEY_INVALID''"
  "\<not> message_includes network_error ''invalid API key''"
  "\<not> message_includes network_error ''500''"
  "\<not> message_includes network_error ''INTERNAL''"
  by (simp_all add: isTransient_def message_includes_def network_error_def)

lemma invalid_key_error_patterns:
  "isTransient invalid_key_error"
  "\<not> message_includes invalid_key_error ''429''"
  "\<not> message_includes invalid_key_error ''RESOURCE_EXHAUSTED''"
  "message_includes invalid_key_error ''API_KEY_INVALID''"
  by (simp_all add: isTransient_def message_includes_def invalid_key_error_def)

lemma third_attempt_fails:
  assumes "truthy (API_KEY env) \<or> truthy (GEMINI_API_KEY env)"
    and "attempt sv q w = (Inl e1, ev1, w1)" and "isTransient e1"
    and "attempt sv q w1 = (Inl e2, ev2, w2)" and "isTransient e2"
    and "attempt sv q w2 = (Inl e3, ev3, w3)"
  shows "consultAgent env sv q w =
      (remediate e3,
       ChatCreate # ev1 @ [ConsoleError 1 e1, Sleep 2000] @
         ev2 @ [ConsoleError 2 e2, Sleep 4000] @ ev3 @ [ConsoleError 3 e3],
       w3)"
proof -
  have third: "retry_loop sv q 2 w2 = (remediate e3, 2, ev3 @ [ConsoleError (2 + 1) e3], w3)"
    using assms(6) by (simp add: retry_loop_give_up maxRetries_def)
  have "retry_loop sv q 0 w =
      (remediate e3, 2,
       ev1 @ [ConsoleError 1 e1, Sleep 2000] @ ev2 @ [ConsoleError 2 e2, Sleep 4000] @
         ev3 @ [ConsoleError (2 + 1) e3], w3)"
    using assms(2-5) third by (rule two_transient_failures)
  with assms(1) show ?thesis
    by (simp add: consultAgent_with_key)
qed

subsection \<open>A transient error on the last attempt\<close>

text \<open>
  C4, as the code has it. When the first two attempts fail with transient errors and the
  third attempt fails with an error whose message contains \<open>500\<close> or \<open>INTERNAL\<close> and
  none of \<open>429\<close>, \<open>RESOURCE_EXHAUSTED\<close>, \<open>API_KEY_INVALID\<close> and
  \<open>invalid API key\<close>, \<open>consultAgent\<close> returns the internal-error response. (An error
  that is transient only through \<open>Service Unavailable\<close> or \<open>Deadline Exceeded\<close> is
  thrown again, and the quota and invalid-key responses come first.)
\<close>

theorem internal_error_after_retries:
  assumes "truthy (API_KEY env) \<or> truthy (GEMINI_API_KEY env)"
    and "attempt sv userQuery w = (Inl e1, ev1, w1)" and "isTransient e1"
    and "attempt sv userQuery w1 = (Inl e2, ev2, w2)" and "isTransient e2"
    and "attempt sv userQuery w2 = (Inl e3, ev3, w3)"
    and "message_includes e3 ''500'' \<or> message_includes e3 ''INTERNAL''"
    and "\<not> message_includes e3 ''429''" and "\<not> message_includes e3 ''RESOURCE_EXHAUSTED''"
    and "\<not> message_includes e3 ''API_KEY_INVALID''"
    and "\<not> message_includes e3 ''invalid API key''"
  shows "consultAgent env sv userQuery w =
      (Returned InternalError internal_error_response,
       ChatCreate # ev1 @ [ConsoleError 1 e1, Sleep 2000] @
         ev2 @ [ConsoleError 2 e2, Sleep 4000] @ ev3 @ [ConsoleError 3 e3],
       w3)"
proof -
  have "remediate e3 = Returned InternalError internal_error_response"
    using assms(7-11) by (simp add: remediate_def)
  with third_attempt_fails [OF assms(1-6)] show ?thesis
    by simp
qed

theorem internal_error_after_retries_witness:
  "consultAgent env_with_key scripted ''List my repos''
      [Inl deadline_error, Inl unavailable_error, Inl internal_error] =
     (Returned InternalError internal_error_response,
      [ChatCreate,
       SendMessage (UserQuery ''List my repos''), ConsoleError 1 deadline_error, Sleep 2000,
       SendMessage (UserQuery ''List my repos''), ConsoleError 2 unavailable_error, Sleep 4000,
       SendMessage (UserQuery ''List my repos''), ConsoleError 3 internal_error],
      [])"
  using internal_error_after_retries
    [where userQuery = "''List my repos''" and sv = scripted
       and w = "[Inl deadline_error, Inl unavailable_error, Inl internal_error]",
     OF env_with_key_truthy attempt_scripted_error deadline_error_patterns(1)
       attempt_scripted_error unavailable_error_patterns(1)
       attempt_scripted_error disjI1 [OF internal_error_patterns(6)]
       internal_error_patterns(2-5)]
  by simp

text \<open>
  The transient predicate and the internal-error remediation are different tests. After
  three failures with \<open>503 Service Unavailable\<close> the error is thrown again; an error
  whose message also contains \<open>429\<close> ends in the quota-exhausted response, and one
  whose message also contains \<open>API_KEY_INVALID\<close> in the invalid-key response.
\<close>

theorem transient_error_not_remediated:
  "isTransient unavailable_error \<and>
   consultAgent env_with_key scripted ''List my repos''
      [Inl unavailable_error, Inl unavailable_error, Inl unavailable_error] =
     (Thrown unavailable_error,
      [ChatCreate,
       SendMessage (UserQuery ''List my repos''), ConsoleError 1 unavailable_error, Sleep 2000,
       SendMessage (UserQuery ''List my repos''), ConsoleError 2 unavailable_error, Sleep 4000,
       SendMessage (UserQuery ''List my repos''), ConsoleError 3 unavailable_error],
      []) \<and>
   isTransient mixed_error \<and>
   consultAgent env_with_key scripted ''List my repos''
      [Inl mixed_error, Inl mixed_error, Inl mixed_error] =
     (Returned QuotaExhausted quota_response,
      [ChatCreate,
       SendMessage (UserQuery ''List my repos''), ConsoleError 1 mixed_error, Sleep 2000,
       SendMessage (UserQuery ''List my repos''), ConsoleError 2 mixed_error, Sleep 4000,
       SendMessage (UserQuery ''List my repos''), ConsoleError 3 mixed_error],
      []) \<and>
   isTransient invalid_key_error \<and>
   consultAgent env_with_key scripted ''List my repos''
      [Inl invalid_key_error, Inl invalid_key_error, Inl invalid_key_error] =
     (Returned InvalidKey invalid_key_response,
      [ChatCreate,
       SendMessage (UserQuery ''List my repos''), ConsoleError 1 invalid_key_error, Sleep 2000,
       SendMessage (UserQuery ''List my repos''), ConsoleError 2 invalid_key_error, Sleep 4000,
       SendMessage (UserQuery ''List my repos''), ConsoleError 3 invalid_key_error],
      [])"
proof -
  have a: "remediate unavailable_error = Thrown unavailable_error"
    by (simp add: remediate_def unavailable_error_patterns)
  have b: "remediate mixed_error = Returned QuotaExhausted quota_response"
    by (simp add: remediate_def mixed_error_patterns)
  have c: "remediate invalid_key_error = Returned InvalidKey invalid_key_response"
    by (simp add: remediate_def invalid_key_error_patterns)
  show ?thesis
    using third_attempt_fails
      [where q = "''List my repos''" and sv = scripted
         and w = "[Inl unavailable_error, Inl unavailable_error, Inl unavailable_error]",
       OF env_with_key_truthy attempt_scripted_error unavailable_error_patterns(1)
         attempt_scripted_error unavailable_error_patterns(1) attempt_scripted_error]
      third_attempt_fails
      [where q = "''List my repos''" and sv = scripted
         and w = "[Inl mixed_error, Inl mixed_error, Inl mixed_error]",
       OF env_with_key_truthy attempt_scripted_error mixed_error_patterns(1)
         attempt_scripted_error mixed_error_patterns(1) attempt_scripted_error]
      third_attempt_fails
      [where q = "''List my repos''" and sv = scripted
         and w = "[Inl invalid_key_error, Inl invalid_key_error, Inl invalid_key_error]",
       OF env_with_key_truthy attempt_scripted_error invalid_key_error_patterns(1)
         attempt_scripted_error invalid_key_error_patterns(1) attempt_scripted_error]
    by (simp add: a b c unavailable_error_patterns(1) mixed_error_patterns(1)
        invalid_key_error_patterns(1))
qed

subsection \<open>Quota errors\<close>

text \<open>
  C5, as the code has it. The transient predicate is tried first. When an attempt fails
  with an error whose message contains \<open>429\<close> and either the message does not match the
  transient predicate or the attempt is the third one, the turn is not retried for that
  error: \<open>consultAgent\<close> logs it and returns the quota-exhausted response, with no wait
  and no further attempt. In particular this holds for such an error on the first attempt.
\<close>

theorem quota_error_is_not_retried:
  assumes "message_includes e ''429''"
    and "\<not> isTransient e \<or> retryCount = 2"
    and "retryCount < maxRetries"
    and "attempt sv userQuery w = (Inl e, ev, w1)"
  shows "retry_loop sv userQuery retryCount w =
      (Returned QuotaExhausted quota_response, retryCount,
       ev @ [ConsoleError (retryCount + 1) e], w1) \<and>
    (retryCount = 0 \<and> (truthy (API_KEY env) \<or> truthy (GEMINI_API_KEY env)) \<longrightarrow>
       consultAgent env sv userQuery w =
         (Returned QuotaExhausted quota_response, ChatCreate # ev @ [ConsoleError 1 e], w1))"
proof -
  have "\<not> isTransient e \<or> \<not> retryCount < maxRetries - 1"
    using assms(2) by (auto simp: maxRetries_def)
  then have "retry_loop sv userQuery retryCount w =
      (remediate e, retryCount, ev @ [ConsoleError (retryCount + 1) e], w1)"
    using assms(3,4) by (simp add: retry_loop_give_up)
  moreover have "remediate e = Returned QuotaExhausted quota_response"
    using assms(1) by (simp add: remediate_def)
  ultimately show ?thesis
    by (auto simp: consultAgent_with_key)
qed

theorem quota_error_is_not_retried_witness:
  "message_includes quota_error ''429'' \<and> \<not> isTransient quota_error \<and>
   consultAgent env_with_key scripted ''List my repos'' [Inl quota_error, Inr plain_answer] =
     (Returned QuotaExhausted quota_response,
      [ChatCreate, SendMessage (UserQuery ''List my repos''), ConsoleError 1 quota_error],
      [Inr plain_answer])"
  using quota_error_is_not_retried
    [where e = quota_error and retryCount = 0 and sv = scripted and env = env_with_key
       and userQuery = "''List my repos''" and w = "[Inl quota_error, Inr plain_answer]",
     OF quota_error_patterns(2) disjI1 [OF quota_error_patterns(1)] _ attempt_scripted_error]
    env_with_key_truthy
  by (simp add: maxRetries_def quota_error_patterns)

text \<open>
  An error whose message contains both \<open>429\<close> and \<open>500\<close> is transient: on the
  first attempt the turn waits 2000 ms and is tried again, and here the second attempt
  succeeds.
\<close>

theorem quota_error_retried_when_transient:
  "message_includes mixed_error ''429'' \<and>
   consultAgent env_with_key scripted ''List my repos'' [Inl mixed_error, Inr plain_answer] =
     (Returned Success \<lparr>agent_text = ''Here are your repos: r1.'', sources = []\<rparr>,
      [ChatCreate,
       SendMessage (UserQuery ''List my repos''), ConsoleError 1 mixed_error, Sleep 2000,
       SendMessage (UserQuery ''List my repos'')],
      [])"
proof -
  have second: "retry_loop scripted ''List my repos'' 1 [Inr plain_answer] =
      (Returned Success \<lparr>agent_text = ''Here are your repos: r1.'', sources = []\<rparr>, 1,
       [SendMessage (UserQuery ''List my repos'')], [])"
    by (simp add: retry_loop_success attempt_scripted_answer extract_plain_answer maxRetries_def)
  have "retry_loop scripted ''List my repos'' 0 [Inl mixed_error, Inr plain_answer] =
      (Returned Success \<lparr>agent_text = ''Here are your repos: r1.'', sources = []\<rparr>, 1,
       [SendMessage (UserQuery ''List my repos'')] @
         [ConsoleError 1 mixed_error, Sleep (2 ^ 1 * 1000)] @
         [SendMessage (UserQuery ''List my repos'')], [])"
    by (rule retry_loop_retry_to [OF _ attempt_scripted_error mixed_error_patterns(1) _ second])
      (simp_all add: maxRetries_def)
  then show ?thesis
    by (simp add: consultAgent_with_key [OF env_with_key_truthy] mixed_error_patterns)
qed

subsection \<open>Errors without a remediation\<close>

text \<open>
  C6, as the code has it. When the first two attempts fail with transient errors and the
  third attempt fails with an error whose message matches none of the remediation
  patterns (\<open>429\<close>, \<open>RESOURCE_EXHAUSTED\<close>, \<open>API_KEY_INVALID\<close>,
  \<open>invalid API key\<close>, \<open>500\<close>, \<open>INTERNAL\<close>), \<open>consultAgent\<close> logs the error and
  throws it again to its caller; it returns no response.
\<close>

theorem unremediated_error_is_rethrown:
  assumes "truthy (API_KEY env) \<or> truthy (GEMINI_API_KEY env)"
    and "attempt sv userQuery w = (Inl e1, ev1, w1)" and "isTransient e1"
    and "attempt sv userQuery w1 = (Inl e2, ev2, w2)" and "isTransient e2"
    and "attempt sv userQuery w2 = (Inl e3, ev3, w3)"
    and "\<not> message_includes e3 ''429''" and "\<not> message_includes e3 ''RESOURCE_EXHAUSTED''"
    and "\<not> message_includes e3 ''API_KEY_INVALID''"
    and "\<not> message_includes e3 ''invalid API key''"
    and "\<not> message_includes e3 ''500''" and "\<not> message_includes e3 ''INTERNAL''"
  shows "consultAgent env sv userQuery w =
      (Thrown e3,
       ChatCreate # ev1 @ [ConsoleError 1 e1, Sleep 2000] @
         ev2 @ [ConsoleError 2 e2, Sleep 4000] @ ev3 @ [ConsoleError 3 e3],
       w3)"
proof -
  have "remediate e3 = Thrown e3"
    using assms(7-12) by (simp add: remediate_def)
  with third_attempt_fails [OF assms(1-6)] show ?thesis
    by simp
qed

theorem unremediated_error_is_rethrown_witness:
  "consultAgent env_with_key scripted ''List my repos''
      [Inl internal_error, Inl deadline_error, Inl deadline_error] =
     (Thrown deadline_error,
      [ChatCreate,
       SendMessage (UserQuery ''List my repos''), ConsoleError 1 internal_error, Sleep 2000,
       SendMessage (UserQuery ''List my repos''), ConsoleError 2 deadline_error, Sleep 4000,
       SendMessage (UserQuery ''List my repos''), ConsoleError 3 deadline_error],
      [])"
  using unremediated_error_is_rethrown
    [where userQuery = "''List my repos''" and sv = scripted
       and w = "[Inl internal_error, Inl deadline_error, Inl deadline_error]",
     OF env_with_key_truthy attempt_scripted_error internal_error_patterns(1)
       attempt_scripted_error deadline_error_patterns(1)
       attempt_scripted_error deadline_error_patterns(2-7)]
  by simp

text \<open>
  After two retries, a third failure that no test of the \<open>catch\<close> block matches is thrown
  to the caller.
\<close>

theorem unclassified_failure_propagates:
  "\<not> isTransient network_error \<and>
   \<not> message_includes network_error ''429'' \<and>
   \<not> message_includes network_error ''RESOURCE_EXHAUSTED'' \<and>
   \<not> message_includes network_error ''API_KEY_INVALID'' \<and>
   \<not> message_includes network_error ''invalid API key'' \<and>
   consultAgent env_with_key scripted ''List my repos''
      [Inl internal_error, Inl internal_error, Inl network_error] =
     (Thrown network_error,
      [ChatCreate,
       SendMessage (UserQuery ''List my repos''), ConsoleError 1 internal_error, Sleep 2000,
       SendMessage (UserQuery ''List my repos''), ConsoleError 2 internal_error, Sleep 4000,
       SendMessage (UserQuery ''List my repos''), ConsoleError 3 network_error],
      [])"
proof -
  have "remediate network_error = Thrown network_error"
    by (simp add: remediate_def network_error_patterns)
  with third_attempt_fails
    [where q = "''List my repos''" and sv = scripted
       and w = "[Inl internal_error, Inl internal_error, Inl network_error]",
     OF env_with_key_truthy attempt_scripted_error internal_error_patterns(1)
       attempt_scripted_error internal_error_patterns(1) attempt_scripted_error]
  show ?thesis
    by (simp add: network_error_patterns)
qed

subsection \<open>An answer without tool calls\<close>

text \<open>
  C8, as the code has it. When the first response of the model has no function calls
  (\<open>functionCalls\<close> is undefined), \<open>consultAgent\<close> returns from the success
  \<open>return\<close> after that one message. The text of the result is the response's text when
  that is a non-empty string, and \<open>Task completed.\<close> when it is empty or undefined. The
  sources are the web citations of the grounding chunks of the first candidate that carry
  one, each as \<open>{uri, title}\<close>, in the order of the chunks, and the empty list when the
  response has no grounding chunks.
\<close>

theorem answer_without_tool_calls:
  assumes "truthy (API_KEY env) \<or> truthy (GEMINI_API_KEY env)"
    and "sendMessage sv (UserQuery userQuery) w = (Inr response, w1)"
    and "functionCalls response = None"
  shows "consultAgent env sv userQuery w =
      (Returned Success
         \<lparr>agent_text =
            (case response_text response of
               None \<Rightarrow> ''Task completed.''
             | Some t \<Rightarrow> if t = [] then ''Task completed.'' else t),
          sources =
            (case grounding_chunks response of
               None \<Rightarrow> []
             | Some chunks \<Rightarrow> List.map_filter web chunks)\<rparr>,
       [ChatCreate, SendMessage (UserQuery userQuery)], w1)"
proof -
  have t: "extract_text response =
      (case response_text response of
         None \<Rightarrow> ''Task completed.''
       | Some t \<Rightarrow> if t = [] then ''Task completed.'' else t)"
    by (simp add: extract_text_def split: option.splits)
  have same: "\<lparr>uri = uri x, title = title x\<rparr> = x" for x :: WebSource
    by simp
  have s: "extract_sources response =
      (case grounding_chunks response of
         None \<Rightarrow> []
       | Some chunks \<Rightarrow> List.map_filter web chunks)"
    by (simp add: extract_sources_def List.map_filter_def comp_def same split: option.splits)
  have "attempt sv userQuery w =
      (Inr \<lparr>agent_text = extract_text response, sources = extract_sources response\<rparr>,
       [SendMessage (UserQuery userQuery)], w1)"
    using assms(2,3) by (simp add: attempt_def function_call_loop.simps)
  then have "retry_loop sv userQuery 0 w =
      (Returned Success
         \<lparr>agent_text = extract_text response, sources = extract_sources response\<rparr>, 0,
       [SendMessage (UserQuery userQuery)], w1)"
    by (simp add: retry_loop_success maxRetries_def)
  with assms(1) show ?thesis
    by (simp add: consultAgent_with_key t s)
qed

theorem answer_without_tool_calls_witness:
  "consultAgent env_with_key scripted ''Find two pages'' [Inr grounded_answer] =
     (Returned Success
        \<lparr>agent_text = ''Two results.'',
         sources =
           [\<lparr>uri = Some ''https://a.example'', title = Some ''A''\<rparr>,
            \<lparr>uri = Some ''https://b.example'', title = None\<rparr>]\<rparr>,
      [ChatCreate, SendMessage (UserQuery ''Find two pages'')], [])"
proof -
  have send: "sendMessage scripted (UserQuery ''Find two pages'') [Inr grounded_answer] =
      (Inr grounded_answer, [])"
    by (simp add: scripted_def)
  have none: "functionCalls grounded_answer = None"
    by (simp add: grounded_answer_def)
  from answer_without_tool_calls [OF env_with_key_truthy send none]
  show ?thesis
    by (simp add: grounded_answer_def grounding_chunks_def List.map_filter_def)
qed

text \<open>
  A response without function calls whose text is the empty string: the result carries
  the placeholder, not the model's text.
\<close>

theorem empty_text_is_replaced:
  "functionCalls empty_answer = None \<and>
   response_text empty_answer = Some [] \<and>
   sendMessage scripted (UserQuery ''List my repos'') [Inr empty_answer] =
     (Inr empty_answer, []) \<and>
   consultAgent env_with_key scripted ''List my repos'' [Inr empty_answer] =
     (Returned Success \<lparr>agent_text = ''Task completed.'', sources = []\<rparr>,
      [ChatCreate, SendMessage (UserQuery ''List my repos'')], [])"
proof -
  have "retry_loop scripted ''List my repos'' 0 [Inr empty_answer] =
      (Returned Success \<lparr>agent_text = ''Task completed.'', sources = []\<rparr>, 0,
       [SendMessage (UserQuery ''List my repos'')], [])"
    by (simp add: retry_loop_success attempt_scripted_answer maxRetries_def empty_answer_def
        extract_text_def extract_sources_def grounding_chunks_def)
  then show ?thesis
    by (simp add: consultAgent_with_key [OF env_with_key_truthy] empty_answer_def scripted_def)
qed

end
